theory Spec2Isabelle
  imports Main "HOL-Library.AList"
begin

section \<open>Data model (src/types/index.ts)\<close>

text \<open>
  A session as \<^verbatim>\<open>interface Session\<close> has it. The \<^verbatim>\<open>timer\<close> field is a handle into the
  timer table of the process (\<open>None\<close>: no live timer behind the field); the metadata object is
  flattened into \<open>createdAt\<close> and \<open>createdBy\<close>. JavaScript numbers that hold timestamps and
  durations are integers here, ports are naturals.
\<close>

record Session =
  containerId :: string
  hostPort :: nat
  expiresAt :: int
  timer :: "nat option"
  userId :: "string option"
  createdAt :: int
  createdBy :: string

datatype container_status = Created | Running | Exited | Dead

record ContainerInfo =
  info_id :: string
  info_hostPort :: nat
  info_status :: container_status

record SessionResponse =
  resp_containerId :: string
  resp_hostPort :: nat
  resp_expiresAt :: int
  resp_remainingTimeMs :: int

text \<open>The part of the configuration (\<^verbatim>\<open>config.sessions\<close>, \<^verbatim>\<open>config.docker\<close>) that the session code reads.\<close>

record Config =
  maxSessions :: int
  defaultDurationMs :: int
  docker_image :: string
  docker_memoryLimit :: string

section \<open>The durable mirror (the ioredis client used by src/models/sessionStore.ts)\<close>

text \<open>
  The mirror holds one value per key together with the expiration in seconds it was written
  with. A command that the client has sent and not yet seen answered is in \<open>inflight\<close>; the
  server answers the commands of one connection in the order they were sent. \<open>rfaults\<close> is the
  outcome script of the connection: one flag per answered command, \<open>True\<close> for a command that
  is answered with an error; an exhausted script means that every further command succeeds.
\<close>

datatype redis_cmd = Setex string int Session | Del string

record Redis =
  entries :: "(string \<times> int \<times> Session) list"
  inflight :: "redis_cmd list"
  rfaults :: "bool list"

fun redis_exec :: "redis_cmd \<Rightarrow> (string \<times> int \<times> Session) list \<Rightarrow> (string \<times> int \<times> Session) list option" where
  "redis_exec (Setex k ttl v) es = (if ttl \<le> 0 then None else Some (AList.update k (ttl, v) es))"
| "redis_exec (Del k) es = Some (AList.delete k es)"

definition redis_fault :: "Redis \<Rightarrow> bool \<times> Redis" where
  "redis_fault r = (case rfaults r of [] \<Rightarrow> (False, r) | f # fs \<Rightarrow> (f, r\<lparr>rfaults := fs\<rparr>))"

text \<open>One command is answered: \<open>True\<close> when it took effect, \<open>False\<close> when it was rejected.\<close>

definition redis_process :: "redis_cmd \<Rightarrow> Redis \<Rightarrow> bool \<times> Redis" where
  "redis_process c r =
     (case redis_fault r of
        (True, r1) \<Rightarrow> (False, r1)
      | (False, r1) \<Rightarrow>
          (case redis_exec c (entries r1) of
             None \<Rightarrow> (False, r1)
           | Some es \<Rightarrow> (True, r1\<lparr>entries := es\<rparr>)))"

text \<open>Every command in flight is answered, oldest first.\<close>

definition redis_settle :: "Redis \<Rightarrow> Redis" where
  "redis_settle r = fold (\<lambda>c r'. snd (redis_process c r')) (inflight r) (r\<lparr>inflight := []\<rparr>)"

text \<open>
  An awaited command: the caller resumes when its answer is there, so everything sent before
  it has been answered too.
\<close>

definition redis_del :: "string \<Rightarrow> Redis \<Rightarrow> bool \<times> Redis" where
  "redis_del k r = redis_process (Del k) (redis_settle r)"

definition redis_get :: "string \<Rightarrow> Redis \<Rightarrow> (unit + Session option) \<times> Redis" where
  "redis_get k r =
     (case redis_fault (redis_settle r) of
        (True, r1) \<Rightarrow> (Inl (), r1)
      | (False, r1) \<Rightarrow> (Inr (map_option snd (map_of (entries r1) k)), r1))"

definition session_key :: "string \<Rightarrow> string" where
  "session_key cid = ''session:'' @ cid"

definition redis_keys :: "Redis \<Rightarrow> (unit + string list) \<times> Redis" where
  "redis_keys r =
     (case redis_fault (redis_settle r) of
        (True, r1) \<Rightarrow> (Inl (), r1)
      | (False, r1) \<Rightarrow> (Inr (filter (\<lambda>k. take 8 k = ''session:'') (map fst (entries r1))), r1))"

section \<open>SessionStore (src/models/sessionStore.ts)\<close>

text \<open>
  The store's \<^verbatim>\<open>Map\<close> is an association list in insertion order with one pair per key;
  \<open>redis\<close> is \<open>None\<close> when persistence is off or the connection could not be set up. The timers
  of the process are a table from handle to the container id whose removal the callback runs
  and the delay the timer is armed with.
\<close>

record SessionStore =
  sessions :: "(string \<times> Session) list"
  redis :: "Redis option"
  timers :: "(nat \<times> string \<times> int) list"
  nextTimer :: nat

text \<open>
  The delay a timer is armed with: \<^verbatim>\<open>setTimeout\<close> replaces a delay below 1 or above
  2147483647 milliseconds by 1.
\<close>

definition timer_delay :: "int \<Rightarrow> int" where
  "timer_delay delay = (if delay < 1 \<or> 2147483647 < delay then 1 else delay)"

definition setTimeout :: "string \<Rightarrow> int \<Rightarrow> SessionStore \<Rightarrow> nat \<times> SessionStore" where
  "setTimeout cid delay st =
     (nextTimer st,
      st\<lparr>timers := AList.update (nextTimer st) (cid, timer_delay delay) (timers st),
         nextTimer := Suc (nextTimer st)\<rparr>)"

definition clearTimeout :: "nat option \<Rightarrow> SessionStore \<Rightarrow> SessionStore" where
  "clearTimeout h st =
     (case h of None \<Rightarrow> st | Some n \<Rightarrow> st\<lparr>timers := AList.delete n (timers st)\<rparr>)"

text \<open>\<^verbatim>\<open>Math.ceil(x / 1000)\<close> on an integer number of milliseconds.\<close>

definition ceil_seconds :: "int \<Rightarrow> int" where
  "ceil_seconds x = - ((- x) div 1000)"

text \<open>
  \<^verbatim>\<open>JSON.stringify(session)\<close>: a session whose \<^verbatim>\<open>timer\<close> field holds an armed timer is a
  circular structure, on which it throws (\<open>None\<close>); a session without one is written with its
  data fields.
\<close>

definition serialise :: "Session \<Rightarrow> Session option" where
  "serialise s = (case timer s of Some h \<Rightarrow> None | None \<Rightarrow> Some s)"

text \<open>
  \<^verbatim>\<open>persistSession\<close> is an async function that \<^verbatim>\<open>createSession\<close> and
  \<^verbatim>\<open>updateSessionExpiry\<close> call without awaiting it. The arguments of \<^verbatim>\<open>setex\<close> are
  evaluated before the call: when \<^verbatim>\<open>JSON.stringify\<close> throws, the \<^verbatim>\<open>catch\<close> logs the error
  and nothing is sent. Otherwise the command is sent and the callers go on while it is in
  flight.
\<close>

definition persistSession :: "Session \<Rightarrow> int \<Rightarrow> SessionStore \<Rightarrow> SessionStore" where
  "persistSession session now st =
     (case redis st of
        None \<Rightarrow> st
      | Some r \<Rightarrow>
          (case serialise session of
             None \<Rightarrow> st
           | Some v \<Rightarrow>
               st\<lparr>redis := Some (r\<lparr>inflight := inflight r @
                 [Setex (session_key (containerId session))
                        (ceil_seconds (expiresAt session - now)) v]\<rparr>)\<rparr>))"

text \<open>\<^verbatim>\<open>removeSessionFromRedis\<close> awaits the \<^verbatim>\<open>del\<close>; an error is logged and dropped.\<close>

definition removeSessionFromRedis :: "string \<Rightarrow> SessionStore \<Rightarrow> SessionStore" where
  "removeSessionFromRedis cid st =
     (case redis st of
        None \<Rightarrow> st
      | Some r \<Rightarrow> st\<lparr>redis := Some (snd (redis_del (session_key cid) r))\<rparr>)"

definition truthy :: "string option \<Rightarrow> bool" where
  "truthy u = (case u of None \<Rightarrow> False | Some s \<Rightarrow> s \<noteq> [])"

definition store_createSession ::
    "string \<Rightarrow> nat \<Rightarrow> int \<Rightarrow> string option \<Rightarrow> int \<Rightarrow> SessionStore \<Rightarrow> Session \<times> SessionStore" where
  "store_createSession cid port durationMs uid now st =
     (let (h, st1) = setTimeout cid durationMs st;
          session = \<lparr>containerId = cid, hostPort = port, expiresAt = now + durationMs,
                     timer = Some h,
                     userId = (if truthy uid then uid else None),
                     createdAt = now,
                     createdBy = (if truthy uid then the uid else ''anonymous'')\<rparr>;
          st2 = st1\<lparr>sessions := AList.update cid session (sessions st1)\<rparr>
      in (session, persistSession session now st2))"

definition getSession :: "SessionStore \<Rightarrow> string \<Rightarrow> Session option" where
  "getSession st cid = map_of (sessions st) cid"

definition getActiveSessionsCount :: "SessionStore \<Rightarrow> int" where
  "getActiveSessionsCount st = int (length (sessions st))"

definition store_removeSession :: "string \<Rightarrow> SessionStore \<Rightarrow> bool \<times> SessionStore" where
  "store_removeSession cid st =
     (case map_of (sessions st) cid of
        None \<Rightarrow> (False, st)
      | Some session \<Rightarrow>
          (let st1 = clearTimeout (timer session) st;
               st2 = st1\<lparr>sessions := AList.delete cid (sessions st1)\<rparr>
           in (True, removeSessionFromRedis cid st2)))"

definition updateSessionExpiry :: "string \<Rightarrow> int \<Rightarrow> int \<Rightarrow> SessionStore \<Rightarrow> bool \<times> SessionStore" where
  "updateSessionExpiry cid newExpiresAt now st =
     (case map_of (sessions st) cid of
        None \<Rightarrow> (False, st)
      | Some session \<Rightarrow>
          (let st1 = clearTimeout (timer session) st;
               (h, st2) = setTimeout cid (newExpiresAt - now) st1;
               session' = session\<lparr>expiresAt := newExpiresAt, timer := Some h\<rparr>;
               st3 = st2\<lparr>sessions := AList.update cid session' (sessions st2)\<rparr>
           in (True, persistSession session' now st3)))"

definition store_getRemainingTime :: "SessionStore \<Rightarrow> int \<Rightarrow> string \<Rightarrow> int" where
  "store_getRemainingTime st now cid =
     (case map_of (sessions st) cid of
        None \<Rightarrow> 0
      | Some session \<Rightarrow> max 0 (expiresAt session - now))"

text \<open>\<^verbatim>\<open>session?.hostPort || null\<close>: a missing session and a zero port both give \<^verbatim>\<open>null\<close>.\<close>

definition store_getSessionHostPort :: "SessionStore \<Rightarrow> string \<Rightarrow> nat option" where
  "store_getSessionHostPort st cid =
     (case map_of (sessions st) cid of
        None \<Rightarrow> None
      | Some session \<Rightarrow> (if hostPort session = 0 then None else Some (hostPort session)))"

definition store_isSessionActive :: "SessionStore \<Rightarrow> int \<Rightarrow> string \<Rightarrow> bool" where
  "store_isSessionActive st now cid =
     (case map_of (sessions st) cid of
        None \<Rightarrow> False
      | Some session \<Rightarrow> expiresAt session > now)"

text \<open>
  \<^verbatim>\<open>loadSessionsFromRedis\<close>: the loop over the keys. An error of \<^verbatim>\<open>get\<close> or \<^verbatim>\<open>del\<close> leaves
  the loop through the surrounding \<^verbatim>\<open>catch\<close>, with what has been loaded so far.
\<close>

fun loadKeys :: "int \<Rightarrow> string list \<Rightarrow> (string \<times> Session) list \<Rightarrow> Redis \<Rightarrow> (string \<times> Session) list \<times> Redis" where
  "loadKeys now [] ss r = (ss, r)"
| "loadKeys now (key # keys) ss r =
     (case redis_get key r of
        (Inl e, r1) \<Rightarrow> (ss, r1)
      | (Inr None, r1) \<Rightarrow> loadKeys now keys ss r1
      | (Inr (Some session), r1) \<Rightarrow>
          (if expiresAt session > now
           then loadKeys now keys (AList.update (containerId session) session ss) r1
           else (case redis_del key r1 of
                   (False, r2) \<Rightarrow> (ss, r2)
                 | (True, r2) \<Rightarrow> loadKeys now keys ss r2)))"

definition loadSessionsFromRedis :: "int \<Rightarrow> SessionStore \<Rightarrow> SessionStore" where
  "loadSessionsFromRedis now st =
     (case redis st of
        None \<Rightarrow> st
      | Some r \<Rightarrow>
          (case redis_keys r of
             (Inl e, r1) \<Rightarrow> st\<lparr>redis := Some r1\<rparr>
           | (Inr keys, r1) \<Rightarrow>
               (case loadKeys now keys (sessions st) r1 of
                  (ss, r2) \<Rightarrow> st\<lparr>sessions := ss, redis := Some r2\<rparr>)))"

section \<open>The container runtime and the clock (what src/services/dockerService.ts talks to)\<close>

text \<open>
  The runtime is a table of containers, the images it has locally, the ids it will hand out
  to the next containers and the ports it will report for them. \<open>faults\<close> is the outcome script
  of the connection, one flag per call in the order the calls are made (\<open>True\<close>: the call
  throws; an exhausted script: every further call succeeds). \<open>calls\<close> records every call made
  and every pause taken, oldest first, and \<open>clock\<close> is what \<^verbatim>\<open>Date.now()\<close> returns; a pause of
  \<open>d\<close> milliseconds moves it by \<open>d\<close>.
\<close>

datatype call =
    CList | CImageInspect string | CPull string | CCreate string
  | CStart string | CInspect string | CStop string | CRemove string | CSleep int

datatype error = MaxSessionsReached | InvalidMemoryLimit | RuntimeFailure call

record Container =
  cstatus :: container_status
  clabelled :: bool
  cports :: "nat list"

record Env =
  containers :: "(string \<times> Container) list"
  images :: "string list"
  freshIds :: "string list"
  portPlan :: "nat list"
  faults :: "bool list"
  calls :: "call list"
  clock :: int

text \<open>A call is recorded and its outcome is taken from the script.\<close>

definition issue :: "call \<Rightarrow> Env \<Rightarrow> bool \<times> Env" where
  "issue c e =
     (case faults e of
        [] \<Rightarrow> (False, e\<lparr>calls := calls e @ [c]\<rparr>)
      | f # fs \<Rightarrow> (f, e\<lparr>faults := fs, calls := calls e @ [c]\<rparr>))"

definition sleep :: "int \<Rightarrow> Env \<Rightarrow> Env" where
  "sleep d e = e\<lparr>calls := calls e @ [CSleep d], clock := clock e + d\<rparr>"

text \<open>
  \<^verbatim>\<open>docker.listContainers\<close> with the filters \<^verbatim>\<open>label: disposable-suite=true\<close> and
  \<^verbatim>\<open>status: running\<close>; the result is the number of containers listed.
\<close>

definition listRunning :: "Env \<Rightarrow> (error + nat) \<times> Env" where
  "listRunning e =
     (case issue CList e of
        (True, e1) \<Rightarrow> (Inl (RuntimeFailure CList), e1)
      | (False, e1) \<Rightarrow>
          (Inr (length (filter (\<lambda>(i, c). clabelled c \<and> cstatus c = Running) (containers e1))), e1))"

definition image_inspect :: "string \<Rightarrow> Env \<Rightarrow> (error + unit) \<times> Env" where
  "image_inspect img e =
     (case issue (CImageInspect img) e of
        (True, e1) \<Rightarrow> (Inl (RuntimeFailure (CImageInspect img)), e1)
      | (False, e1) \<Rightarrow>
          (if img \<in> set (images e1) then (Inr (), e1)
           else (Inl (RuntimeFailure (CImageInspect img)), e1)))"

definition pull :: "string \<Rightarrow> Env \<Rightarrow> (error + unit) \<times> Env" where
  "pull img e =
     (case issue (CPull img) e of
        (True, e1) \<Rightarrow> (Inl (RuntimeFailure (CPull img)), e1)
      | (False, e1) \<Rightarrow> (Inr (), e1\<lparr>images := img # images e1\<rparr>))"

text \<open>
  \<^verbatim>\<open>docker.createContainer\<close>: the new container carries the label, is not started, and gets
  the next id of the runtime.
\<close>

definition createContainer :: "string \<Rightarrow> Env \<Rightarrow> (error + string) \<times> Env" where
  "createContainer img e =
     (case issue (CCreate img) e of
        (True, e1) \<Rightarrow> (Inl (RuntimeFailure (CCreate img)), e1)
      | (False, e1) \<Rightarrow>
          (case freshIds e1 of
             [] \<Rightarrow> (Inl (RuntimeFailure (CCreate img)), e1)
           | i # ids \<Rightarrow>
               (Inr i, e1\<lparr>containers := containers e1 @
                             [(i, \<lparr>cstatus = Created, clabelled = True, cports = portPlan e1\<rparr>)],
                           freshIds := ids\<rparr>)))"

definition set_status :: "string \<Rightarrow> container_status \<Rightarrow> Env \<Rightarrow> Env" where
  "set_status cid s e =
     e\<lparr>containers := map (\<lambda>(i, c). if i = cid then (i, c\<lparr>cstatus := s\<rparr>) else (i, c)) (containers e)\<rparr>"

definition container_start :: "string \<Rightarrow> Env \<Rightarrow> (error + unit) \<times> Env" where
  "container_start cid e =
     (case issue (CStart cid) e of
        (True, e1) \<Rightarrow> (Inl (RuntimeFailure (CStart cid)), e1)
      | (False, e1) \<Rightarrow>
          (case map_of (containers e1) cid of
             None \<Rightarrow> (Inl (RuntimeFailure (CStart cid)), e1)
           | Some c \<Rightarrow> (Inr (), set_status cid Running e1)))"

text \<open>
  \<^verbatim>\<open>container.inspect\<close> gives the state and the host port published for \<^verbatim>\<open>3000/tcp\<close>
  (0: none yet). The port the runtime reports may change from one inspection to the next:
  each inspection reads the head of the container's \<open>cports\<close> and moves on while more follow.
\<close>

definition reported_port :: "nat list \<Rightarrow> nat" where
  "reported_port ps = (case ps of [] \<Rightarrow> 0 | p # qs \<Rightarrow> p)"

fun next_ports :: "nat list \<Rightarrow> nat list" where
  "next_ports (p # q # ps) = q # ps"
| "next_ports ps = ps"

definition container_inspect :: "string \<Rightarrow> Env \<Rightarrow> (error + container_status \<times> nat) \<times> Env" where
  "container_inspect cid e =
     (case issue (CInspect cid) e of
        (True, e1) \<Rightarrow> (Inl (RuntimeFailure (CInspect cid)), e1)
      | (False, e1) \<Rightarrow>
          (case map_of (containers e1) cid of
             None \<Rightarrow> (Inl (RuntimeFailure (CInspect cid)), e1)
           | Some c \<Rightarrow>
               (Inr (cstatus c, reported_port (cports c)),
                e1\<lparr>containers := map (\<lambda>(i, c'). if i = cid
                        then (i, c'\<lparr>cports := next_ports (cports c')\<rparr>)
                        else (i, c')) (containers e1)\<rparr>)))"

definition container_stop :: "string \<Rightarrow> Env \<Rightarrow> (error + unit) \<times> Env" where
  "container_stop cid e =
     (case issue (CStop cid) e of
        (True, e1) \<Rightarrow> (Inl (RuntimeFailure (CStop cid)), e1)
      | (False, e1) \<Rightarrow>
          (case map_of (containers e1) cid of
             None \<Rightarrow> (Inl (RuntimeFailure (CStop cid)), e1)
           | Some c \<Rightarrow> (Inr (), set_status cid Exited e1)))"

definition container_remove :: "string \<Rightarrow> Env \<Rightarrow> (error + unit) \<times> Env" where
  "container_remove cid e =
     (case issue (CRemove cid) e of
        (True, e1) \<Rightarrow> (Inl (RuntimeFailure (CRemove cid)), e1)
      | (False, e1) \<Rightarrow>
          (case map_of (containers e1) cid of
             None \<Rightarrow> (Inl (RuntimeFailure (CRemove cid)), e1)
           | Some c \<Rightarrow> (Inr (), e1\<lparr>containers := AList.delete cid (containers e1)\<rparr>)))"

section \<open>DockerService (src/services/dockerService.ts)\<close>

definition maxRetries :: nat where
  "maxRetries = 3"

definition retryDelay :: int where
  "retryDelay = 1000"

text \<open>\<^verbatim>\<open>getActiveContainersCount\<close>: an error of the listing is logged and answered with 0.\<close>

definition getActiveContainersCount :: "Env \<Rightarrow> nat \<times> Env" where
  "getActiveContainersCount e =
     (case listRunning e of
        (Inl err, e1) \<Rightarrow> (0, e1)
      | (Inr n, e1) \<Rightarrow> (n, e1))"

definition ensureImageExists :: "string \<Rightarrow> Env \<Rightarrow> (error + unit) \<times> Env" where
  "ensureImageExists img e =
     (case image_inspect img e of
        (Inr u, e1) \<Rightarrow> (Inr (), e1)
      | (Inl err, e1) \<Rightarrow> pull img e1)"

text \<open>
  \<^verbatim>\<open>startContainerWithRetry\<close>, the loop from a given attempt number on. Falling out of the
  loop would return normally.
\<close>

function startAttempts :: "nat \<Rightarrow> string \<Rightarrow> Env \<Rightarrow> (error + unit) \<times> Env" where
  "startAttempts attempt cid e =
     (if attempt \<le> maxRetries then
        (case container_start cid e of
           (Inr u, e1) \<Rightarrow> (Inr (), e1)
         | (Inl err, e1) \<Rightarrow>
             (if attempt = maxRetries then (Inl err, e1)
              else startAttempts (attempt + 1) cid (sleep (retryDelay * int attempt) e1)))
      else (Inr (), e))"
  by pat_completeness auto
termination
  by (relation "measure (\<lambda>(attempt, cid, e). Suc maxRetries - attempt)") auto

definition startContainerWithRetry :: "string \<Rightarrow> Env \<Rightarrow> (error + unit) \<times> Env" where
  "startContainerWithRetry cid e = startAttempts 1 cid e"

text \<open>
  \<^verbatim>\<open>parseMemoryLimit\<close>: the pattern \<^verbatim>\<open>/^(\d+)([bkmg])?$/i\<close>, then the value times the unit.
\<close>

definition is_digit :: "char \<Rightarrow> bool" where
  "is_digit c = (c \<in> set ''0123456789'')"

definition digits_value :: "string \<Rightarrow> nat" where
  "digits_value ds = fold (\<lambda>c n. 10 * n + (of_char c - 48)) ds 0"

definition unit_factor :: "char \<Rightarrow> nat option" where
  "unit_factor u =
     (if u \<in> set ''bB'' then Some 1
      else if u \<in> set ''kK'' then Some 1024
      else if u \<in> set ''mM'' then Some (1024 * 1024)
      else if u \<in> set ''gG'' then Some (1024 * 1024 * 1024)
      else None)"

definition parseMemoryLimit :: "string \<Rightarrow> error + nat" where
  "parseMemoryLimit memoryLimit =
     (let ds = takeWhile is_digit memoryLimit; rest = dropWhile is_digit memoryLimit in
      if ds = [] then Inl InvalidMemoryLimit
      else (case rest of
              [] \<Rightarrow> Inr (digits_value ds)
            | [u] \<Rightarrow> (case unit_factor u of
                        None \<Rightarrow> Inl InvalidMemoryLimit
                      | Some f \<Rightarrow> Inr (digits_value ds * f))
            | _ \<Rightarrow> Inl InvalidMemoryLimit))"

text \<open>
  \<^verbatim>\<open>waitForHostPort\<close>: the polling loop, from the time \<open>start\<close> at which it was entered.
\<close>

function waitLoop :: "int \<Rightarrow> int \<Rightarrow> string \<Rightarrow> Env \<Rightarrow> (error + nat) \<times> Env" where
  "waitLoop start timeoutMs cid e =
     (if clock e - start < timeoutMs then
        (case container_inspect cid e of
           (Inl err, e1) \<Rightarrow> (Inl err, e1)
         | (Inr (status, port), e1) \<Rightarrow>
             (if port > 0 then (Inr port, e1)
              else waitLoop start timeoutMs cid (sleep 100 e1)))
      else (Inr 0, e))"
  by pat_completeness auto
termination
  by (relation "measure (\<lambda>(start, timeoutMs, cid, e). nat (timeoutMs - (clock e - start)))")
     (auto simp: container_inspect_def issue_def sleep_def split: list.splits option.splits bool.splits)

definition waitForHostPort :: "string \<Rightarrow> Env \<Rightarrow> (error + nat) \<times> Env" where
  "waitForHostPort cid e = waitLoop (clock e) 5000 cid e"

text \<open>
  \<^verbatim>\<open>startContainer\<close> from the image check on, that is, everything after its capacity check:
  image, memory limit, create, start with retry, port, final inspection. Each error leaves
  through the \<^verbatim>\<open>catch\<close>, which logs and rethrows it.
\<close>

definition provision :: "Config \<Rightarrow> string \<Rightarrow> Env \<Rightarrow> (error + ContainerInfo) \<times> Env" where
  "provision cfg img e =
     (case ensureImageExists img e of
        (Inl err, e1) \<Rightarrow> (Inl err, e1)
      | (Inr u, e1) \<Rightarrow>
     (case parseMemoryLimit (docker_memoryLimit cfg) of
        Inl err \<Rightarrow> (Inl err, e1)
      | Inr mem \<Rightarrow>
     (case createContainer img e1 of
        (Inl err, e2) \<Rightarrow> (Inl err, e2)
      | (Inr cid, e2) \<Rightarrow>
     (case startContainerWithRetry cid e2 of
        (Inl err, e3) \<Rightarrow> (Inl err, e3)
      | (Inr u, e3) \<Rightarrow>
     (case waitForHostPort cid e3 of
        (Inl err, e4) \<Rightarrow> (Inl err, e4)
      | (Inr port, e4) \<Rightarrow>
     (case container_inspect cid e4 of
        (Inl err, e5) \<Rightarrow> (Inl err, e5)
      | (Inr (status, p), e5) \<Rightarrow>
          (Inr \<lparr>info_id = cid, info_hostPort = port, info_status = status\<rparr>, e5)))))))"

definition startContainer :: "Config \<Rightarrow> string \<Rightarrow> Env \<Rightarrow> (error + ContainerInfo) \<times> Env" where
  "startContainer cfg img e =
     (case getActiveContainersCount e of
        (activeContainers, e1) \<Rightarrow>
          (if int activeContainers \<ge> maxSessions cfg then (Inl MaxSessionsReached, e1)
           else provision cfg img e1))"

text \<open>\<^verbatim>\<open>stopContainer\<close>: every error is logged and answered with \<^verbatim>\<open>false\<close>.\<close>

definition stopContainer :: "string \<Rightarrow> Env \<Rightarrow> bool \<times> Env" where
  "stopContainer cid e =
     (case container_inspect cid e of
        (Inl err, e1) \<Rightarrow> (False, e1)
      | (Inr (status, port), e1) \<Rightarrow>
          (case (if status = Running then container_stop cid e1 else (Inr (), e1)) of
             (Inl err, e2) \<Rightarrow> (False, e2)
           | (Inr u, e2) \<Rightarrow>
               (case container_remove cid e2 of
                  (Inl err, e3) \<Rightarrow> (False, e3)
                | (Inr u', e3) \<Rightarrow> (True, e3))))"

section \<open>SessionManager (src/services/sessionManager.ts)\<close>

record World =
  store :: SessionStore
  env :: Env

text \<open>\<^verbatim>\<open>durationMs || config.sessions.defaultDurationMs\<close>\<close>

definition sessionDuration :: "Config \<Rightarrow> int option \<Rightarrow> int" where
  "sessionDuration cfg durationMs =
     (case durationMs of
        None \<Rightarrow> defaultDurationMs cfg
      | Some d \<Rightarrow> (if d = 0 then defaultDurationMs cfg else d))"

text \<open>\<^verbatim>\<open>createSession\<close> once \<^verbatim>\<open>startContainer\<close> has returned: the entry in the store and the answer.\<close>

definition register :: "Config \<Rightarrow> int option \<Rightarrow> string option \<Rightarrow> ContainerInfo \<Rightarrow> World \<Rightarrow> SessionResponse \<times> World" where
  "register cfg durationMs uid info w =
     (case store_createSession (info_id info) (info_hostPort info) (sessionDuration cfg durationMs)
             uid (clock (env w)) (store w) of
        (session, st1) \<Rightarrow>
          (\<lparr>resp_containerId = info_id info, resp_hostPort = info_hostPort info,
            resp_expiresAt = expiresAt session,
            resp_remainingTimeMs = sessionDuration cfg durationMs\<rparr>,
           w\<lparr>store := st1\<rparr>))"

definition createSession :: "Config \<Rightarrow> int option \<Rightarrow> string option \<Rightarrow> World \<Rightarrow> (error + SessionResponse) \<times> World" where
  "createSession cfg durationMs uid w =
     (if getActiveSessionsCount (store w) \<ge> maxSessions cfg then (Inl MaxSessionsReached, w)
      else (case startContainer cfg (docker_image cfg) (env w) of
              (Inl err, e1) \<Rightarrow> (Inl err, w\<lparr>env := e1\<rparr>)
            | (Inr info, e1) \<Rightarrow>
                (case register cfg durationMs uid info (w\<lparr>env := e1\<rparr>) of
                   (resp, w1) \<Rightarrow> (Inr resp, w1))))"

definition stopSession :: "string \<Rightarrow> World \<Rightarrow> bool \<times> World" where
  "stopSession cid w =
     (case stopContainer cid (env w) of
        (containerStopped, e1) \<Rightarrow>
          (case store_removeSession cid (store w) of
             (sessionRemoved, st1) \<Rightarrow>
               (containerStopped \<and> sessionRemoved, \<lparr>store = st1, env = e1\<rparr>)))"

definition getRemainingTime :: "World \<Rightarrow> string \<Rightarrow> int" where
  "getRemainingTime w cid = store_getRemainingTime (store w) (clock (env w)) cid"

text \<open>\<^verbatim>\<open>extendSession\<close>: the error thrown for a missing session is caught and answered with \<^verbatim>\<open>false\<close>.\<close>

definition extendSession :: "string \<Rightarrow> int \<Rightarrow> World \<Rightarrow> bool \<times> World" where
  "extendSession cid extraMs w =
     (case getSession (store w) cid of
        None \<Rightarrow> (False, w)
      | Some session \<Rightarrow>
          (case updateSessionExpiry cid (expiresAt session + extraMs) (clock (env w)) (store w) of
             (success, st1) \<Rightarrow> (success, w\<lparr>store := st1\<rparr>)))"

definition getSessionHostPort :: "World \<Rightarrow> string \<Rightarrow> nat option" where
  "getSessionHostPort w cid = store_getSessionHostPort (store w) cid"

definition isSessionActive :: "World \<Rightarrow> string \<Rightarrow> bool" where
  "isSessionActive w cid = store_isSessionActive (store w) (clock (env w)) cid"

section \<open>Interleaved calls of createSession\<close>

text \<open>
  A call of the async \<^verbatim>\<open>createSession\<close> runs in pieces; another call can run between two
  pieces at an \<^verbatim>\<open>await\<close>. Three pieces are kept apart here: the session count check on entry
  (up to the first \<^verbatim>\<open>await\<close>, in \<^verbatim>\<open>getActiveContainersCount\<close>), the container count check of
  \<^verbatim>\<open>startContainer\<close>, and the rest up to the entry in the store. The rest holds further
  \<^verbatim>\<open>await\<close>s, which are not split: every schedule below is one the program can take.
\<close>

datatype pc = Entry | AwaitCount | AwaitProvision | Finished "error + SessionResponse"

fun task_step :: "Config \<Rightarrow> int option \<Rightarrow> string option \<Rightarrow> pc \<Rightarrow> World \<Rightarrow> pc \<times> World" where
  "task_step cfg durationMs uid Entry w =
     (if getActiveSessionsCount (store w) \<ge> maxSessions cfg then (Finished (Inl MaxSessionsReached), w)
      else (AwaitCount, w))"
| "task_step cfg durationMs uid AwaitCount w =
     (case getActiveContainersCount (env w) of
        (activeContainers, e1) \<Rightarrow>
          (if int activeContainers \<ge> maxSessions cfg
           then (Finished (Inl MaxSessionsReached), w\<lparr>env := e1\<rparr>)
           else (AwaitProvision, w\<lparr>env := e1\<rparr>)))"
| "task_step cfg durationMs uid AwaitProvision w =
     (case provision cfg (docker_image cfg) (env w) of
        (Inl err, e1) \<Rightarrow> (Finished (Inl err), w\<lparr>env := e1\<rparr>)
      | (Inr info, e1) \<Rightarrow>
          (case register cfg durationMs uid info (w\<lparr>env := e1\<rparr>) of
             (resp, w1) \<Rightarrow> (Finished (Inr resp), w1)))"
| "task_step cfg durationMs uid (Finished r) w = (Finished r, w)"

text \<open>A schedule names, step by step, the call that runs its next piece.\<close>

fun run :: "Config \<Rightarrow> nat list \<Rightarrow> pc list \<Rightarrow> World \<Rightarrow> pc list \<times> World" where
  "run cfg [] ts w = (ts, w)"
| "run cfg (i # sched) ts w =
     (if i < length ts
      then (case task_step cfg None None (ts ! i) w of (p, w1) \<Rightarrow> run cfg sched (ts[i := p]) w1)
      else run cfg sched ts w)"

section \<open>HTTP handlers (src/api/browser)\<close>

datatype payload = NoData | ValidationErrors | StoppedData string bool | ExtendedData string bool

record ApiResponse =
  http_status :: nat
  success :: bool
  message :: string
  payload :: payload

text \<open>
  \<^verbatim>\<open>stopSession\<close> of stopSession.ts; \<open>valid\<close> is the outcome of the request validation.
\<close>

definition stopSession_handler :: "bool \<Rightarrow> string \<Rightarrow> World \<Rightarrow> ApiResponse \<times> World" where
  "stopSession_handler valid cid w =
     (if \<not> valid then
        (\<lparr>http_status = 400, success = False, message = ''Validation failed'', payload = ValidationErrors\<rparr>, w)
      else if \<not> isSessionActive w cid then
        (\<lparr>http_status = 200, success = True, message = ''Session already stopped or does not exist'',
          payload = StoppedData cid True\<rparr>, w)
      else (case stopSession cid w of
              (True, w1) \<Rightarrow>
                (\<lparr>http_status = 200, success = True, message = ''Session stopped successfully'',
                  payload = StoppedData cid True\<rparr>, w1)
            | (False, w1) \<Rightarrow>
                (\<lparr>http_status = 200, success = True, message = ''Session already stopped or does not exist'',
                  payload = StoppedData cid True\<rparr>, w1)))"

text \<open>\<^verbatim>\<open>extendSession\<close> of extendSession.ts.\<close>

definition extendSession_handler :: "bool \<Rightarrow> string \<Rightarrow> int \<Rightarrow> World \<Rightarrow> ApiResponse \<times> World" where
  "extendSession_handler valid cid extendByMs w =
     (if \<not> valid then
        (\<lparr>http_status = 400, success = False, message = ''Validation failed'', payload = ValidationErrors\<rparr>, w)
      else if \<not> isSessionActive w cid then
        (\<lparr>http_status = 404, success = False, message = ''Session not found or already expired'',
          payload = ExtendedData cid False\<rparr>, w)
      else (case extendSession cid extendByMs w of
              (True, w1) \<Rightarrow>
                (\<lparr>http_status = 200, success = True, message = ''Session extended successfully'',
                  payload = ExtendedData cid True\<rparr>, w1)
            | (False, w1) \<Rightarrow>
                (\<lparr>http_status = 500, success = False, message = ''Failed to extend session'',
                  payload = ExtendedData cid False\<rparr>, w1)))"

text \<open>
  \<^verbatim>\<open>proxyToBrowser\<close>: the request is answered with 404 or handed to a proxy for the port.
  \<open>param\<close> is \<^verbatim>\<open>req.params['containerId']\<close>, replaced by the empty string when missing.
\<close>

datatype proxy_result = Status404 | Forward nat

definition proxyToBrowser :: "string option \<Rightarrow> World \<Rightarrow> proxy_result" where
  "proxyToBrowser param w =
     (let cid = (case param of None \<Rightarrow> [] | Some s \<Rightarrow> s) in
      case getSessionHostPort w cid of
        None \<Rightarrow> Status404
      | Some port \<Rightarrow> Forward port)"

section \<open>Observing the runtime\<close>

text \<open>
  Counters over the record of calls, and the relation between two states of the runtime when
  nothing has been created, started, stopped or removed in between.
\<close>

definition is_create :: "call \<Rightarrow> bool" where
  "is_create c = (case c of CCreate img \<Rightarrow> True | _ \<Rightarrow> False)"

definition is_start :: "call \<Rightarrow> bool" where
  "is_start c = (case c of CStart cid \<Rightarrow> True | _ \<Rightarrow> False)"

definition is_teardown :: "call \<Rightarrow> bool" where
  "is_teardown c = (case c of CStop cid \<Rightarrow> True | CRemove cid \<Rightarrow> True | _ \<Rightarrow> False)"

definition ncalls :: "(call \<Rightarrow> bool) \<Rightarrow> Env \<Rightarrow> nat" where
  "ncalls p e = length (filter p (calls e))"

definition quiet :: "Env \<Rightarrow> Env \<Rightarrow> bool" where
  "quiet e e' \<longleftrightarrow>
     ncalls is_teardown e' = ncalls is_teardown e \<and> ncalls is_create e' = ncalls is_create e \<and>
     ncalls is_start e' = ncalls is_start e \<and> map fst (containers e') = map fst (containers e)"

section \<open>Observing the mirror\<close>

text \<open>
  A mirror is \<open>healthy\<close> when nothing is in flight and no command will be answered with an
  error; it is \<open>wellkeyed\<close> when every value sits under the key of its own container id, as
  \<^verbatim>\<open>persistSession\<close> builds the key.
\<close>

definition healthy :: "Redis \<Rightarrow> bool" where
  "healthy r \<longleftrightarrow> rfaults r = [] \<and> inflight r = []"

definition wellkeyed :: "(string \<times> int \<times> Session) list \<Rightarrow> bool" where
  "wellkeyed es = list_all (\<lambda>(k, ttl, s). k = session_key (containerId s)) es"

section \<open>Example states\<close>

definition demo_cfg :: Config where
  "demo_cfg = \<lparr>maxSessions = 1, defaultDurationMs = 300000, docker_image = ''browser'',
     docker_memoryLimit = ''2g''\<rparr>"

definition demo_session :: Session where
  "demo_session = \<lparr>containerId = ''c0'', hostPort = 0, expiresAt = 1000, timer = None,
     userId = None, createdAt = 0, createdBy = ''anonymous''\<rparr>"

definition demo_env :: Env where
  "demo_env = \<lparr>containers = [], images = [''browser''], freshIds = [''c1'', ''c2''],
     portPlan = [0, 32768], faults = [], calls = [], clock = 2000\<rparr>"

definition empty_store :: SessionStore where
  "empty_store = \<lparr>sessions = [], redis = None, timers = [], nextTimer = 0\<rparr>"

definition stale_world :: World where
  "stale_world = \<lparr>store = empty_store\<lparr>sessions := [(''c0'', demo_session)]\<rparr>, env = demo_env\<rparr>"

definition live_session :: Session where
  "live_session = \<lparr>containerId = ''c1'', hostPort = 32768, expiresAt = 5000, timer = Some 0,
     userId = Some ''alice'', createdAt = 0, createdBy = ''alice''\<rparr>"

definition running_env :: Env where
  "running_env = \<lparr>containers = [(''c1'', \<lparr>cstatus = Running, clabelled = True, cports = [32768]\<rparr>)],
     images = [''browser''], freshIds = [''c2'', ''c3''], portPlan = [0, 32769],
     faults = [], calls = [], clock = 2000\<rparr>"

definition live_world :: World where
  "live_world = \<lparr>store = \<lparr>sessions = [(''c1'', live_session)], redis = None,
                            timers = [(0, ''c1'', 5000)], nextTimer = 1\<rparr>,
                  env = running_env\<rparr>"


definition failing_world :: World where
  "failing_world = \<lparr>store = empty_store, env = demo_env\<lparr>faults := [False, False, False, True, True, True]\<rparr>\<rparr>"

definition race_world :: World where
  "race_world = \<lparr>store = empty_store, env = demo_env\<rparr>"

definition empty_redis :: Redis where
  "empty_redis = \<lparr>entries = [], inflight = [], rfaults = []\<rparr>"

definition mirrored_store :: SessionStore where
  "mirrored_store = empty_store\<lparr>redis := Some empty_redis\<rparr>"

definition parsed_session :: Session where
  "parsed_session = live_session\<lparr>timer := None\<rparr>"

definition restart_store :: SessionStore where
  "restart_store = empty_store\<lparr>redis := Some \<lparr>entries =
       [(''session:c1'', 3, parsed_session), (''session:c0'', 1, demo_session)],
     inflight = [], rfaults = []\<rparr>\<rparr>"

definition unpublished_env :: Env where
  "unpublished_env = running_env\<lparr>containers :=
     [(''c0'', \<lparr>cstatus = Running, clabelled = True, cports = [0]\<rparr>)]\<rparr>"

definition portless_world :: World where
  "portless_world = \<lparr>store = empty_store, env = demo_env\<lparr>portPlan := [0]\<rparr>\<rparr>"

section \<open>Auxiliary facts\<close>

subsection \<open>What each runtime call leaves behind\<close>

lemma map_of_map_at:
  "map_of (map (\<lambda>(i, c). if i = cid then (i, f c) else (i, c)) xs) k =
     (if k = cid then map_option f (map_of xs k) else map_of xs k)"
  by (induction xs) auto

lemma keys_map_at:
  "map fst (map (\<lambda>(i, c). if i = cid then (i, f c) else (i, c)) xs) = map fst xs"
  by (induction xs) auto

lemma issue_frame:
  "issue c e = (f, e') \<Longrightarrow>
     calls e' = calls e @ [c] \<and> faults e' = drop 1 (faults e) \<and> containers e' = containers e \<and>
     clock e' = clock e \<and> images e' = images e \<and> freshIds e' = freshIds e \<and> portPlan e' = portPlan e \<and>
     f = (faults e \<noteq> [] \<and> hd (faults e))"
  by (auto simp: issue_def split: list.splits)

lemma sleep_frame:
  "calls (sleep d e) = calls e @ [CSleep d] \<and> faults (sleep d e) = faults e \<and>
   containers (sleep d e) = containers e \<and> clock (sleep d e) = clock e + d \<and>
   images (sleep d e) = images e \<and> freshIds (sleep d e) = freshIds e \<and> portPlan (sleep d e) = portPlan e"
  by (simp add: sleep_def)

lemma ncalls_sleep: "ncalls p (sleep d e) = ncalls p e + (if p (CSleep d) then 1 else 0)"
  by (simp add: ncalls_def sleep_def)

lemma listRunning_frame:
  "listRunning e = (r, e') \<Longrightarrow>
     calls e' = calls e @ [CList] \<and> faults e' = drop 1 (faults e) \<and> containers e' = containers e \<and>
     clock e' = clock e \<and> images e' = images e \<and> freshIds e' = freshIds e \<and> portPlan e' = portPlan e"
  by (auto simp: listRunning_def split: prod.splits bool.splits dest!: issue_frame)

lemma image_inspect_frame:
  "image_inspect img e = (r, e') \<Longrightarrow>
     calls e' = calls e @ [CImageInspect img] \<and> faults e' = drop 1 (faults e) \<and> containers e' = containers e \<and>
     clock e' = clock e \<and> images e' = images e \<and> freshIds e' = freshIds e \<and> portPlan e' = portPlan e"
  by (auto simp: image_inspect_def split: prod.splits bool.splits if_splits dest!: issue_frame)

lemma pull_frame:
  "pull img e = (r, e') \<Longrightarrow>
     calls e' = calls e @ [CPull img] \<and> faults e' = drop 1 (faults e) \<and> containers e' = containers e \<and>
     clock e' = clock e \<and> freshIds e' = freshIds e \<and> portPlan e' = portPlan e"
  by (auto simp: pull_def split: prod.splits bool.splits if_splits dest!: issue_frame)

lemma createContainer_frame:
  "createContainer img e = (r, e') \<Longrightarrow>
     calls e' = calls e @ [CCreate img] \<and> faults e' = drop 1 (faults e) \<and>
     clock e' = clock e \<and> images e' = images e \<and> portPlan e' = portPlan e \<and>
     (case r of Inl err \<Rightarrow> containers e' = containers e
      | Inr i \<Rightarrow> containers e' = containers e @ [(i, \<lparr>cstatus = Created, clabelled = True, cports = portPlan e\<rparr>)]
                 \<and> freshIds e = i # freshIds e')"
  by (auto simp: createContainer_def split: prod.splits bool.splits list.splits dest!: issue_frame)

lemma container_start_frame:
  "container_start cid e = (r, e') \<Longrightarrow>
     calls e' = calls e @ [CStart cid] \<and> faults e' = drop 1 (faults e) \<and>
     map fst (containers e') = map fst (containers e) \<and>
     clock e' = clock e \<and> images e' = images e \<and> freshIds e' = freshIds e \<and> portPlan e' = portPlan e"
  by (auto simp: container_start_def set_status_def keys_map_at
           split: prod.splits bool.splits option.splits dest!: issue_frame)

lemma container_inspect_frame:
  "container_inspect cid e = (r, e') \<Longrightarrow>
     calls e' = calls e @ [CInspect cid] \<and> faults e' = drop 1 (faults e) \<and>
     map fst (containers e') = map fst (containers e) \<and>
     clock e' = clock e \<and> images e' = images e \<and> freshIds e' = freshIds e \<and> portPlan e' = portPlan e"
  by (auto simp: container_inspect_def keys_map_at
           split: prod.splits bool.splits option.splits dest!: issue_frame)

lemma container_stop_frame:
  "container_stop cid e = (r, e') \<Longrightarrow>
     calls e' = calls e @ [CStop cid] \<and> faults e' = drop 1 (faults e) \<and>
     map fst (containers e') = map fst (containers e) \<and>
     clock e' = clock e \<and> images e' = images e \<and> freshIds e' = freshIds e \<and> portPlan e' = portPlan e"
  by (auto simp: container_stop_def set_status_def keys_map_at
           split: prod.splits bool.splits option.splits dest!: issue_frame)

lemma container_remove_frame:
  "container_remove cid e = (r, e') \<Longrightarrow>
     calls e' = calls e @ [CRemove cid] \<and> faults e' = drop 1 (faults e) \<and>
     clock e' = clock e \<and> images e' = images e \<and> freshIds e' = freshIds e \<and> portPlan e' = portPlan e"
  by (auto simp: container_remove_def
           split: prod.splits bool.splits option.splits dest!: issue_frame)

lemma startContainerWithRetry_unfold:
  "startContainerWithRetry cid e =
     (case container_start cid e of
        (Inr u, e1) \<Rightarrow> (Inr (), e1)
      | (Inl err1, e1) \<Rightarrow>
     (case container_start cid (sleep 1000 e1) of
        (Inr u, e2) \<Rightarrow> (Inr (), e2)
      | (Inl err2, e2) \<Rightarrow>
     (case container_start cid (sleep 2000 e2) of
        (Inr u, e3) \<Rightarrow> (Inr (), e3)
      | (Inl err3, e3) \<Rightarrow> (Inl err3, e3))))"
  unfolding startContainerWithRetry_def
  apply (subst startAttempts.simps)
  apply (subst startAttempts.simps)
  apply (subst startAttempts.simps)
  apply (simp add: maxRetries_def retryDelay_def split: prod.splits sum.splits)
  done

lemma startContainerWithRetry_calls:
  assumes "startContainerWithRetry cid e = (r, e')"
  shows "\<exists>xs. calls e' = calls e @ xs \<and>
           (xs = [CStart cid] \<or> xs = [CStart cid, CSleep 1000, CStart cid] \<or>
            xs = [CStart cid, CSleep 1000, CStart cid, CSleep 2000, CStart cid]) \<and>
           (isl r \<longrightarrow> xs = [CStart cid, CSleep 1000, CStart cid, CSleep 2000, CStart cid])"
  using assms unfolding startContainerWithRetry_unfold
  by (auto split: prod.splits sum.splits dest!: container_start_frame simp: sleep_frame)

lemma startContainerWithRetry_frame:
  assumes "startContainerWithRetry cid e = (r, e')"
  shows "map fst (containers e') = map fst (containers e) \<and> images e' = images e \<and>
         freshIds e' = freshIds e \<and> portPlan e' = portPlan e"
  using assms unfolding startContainerWithRetry_unfold
  by (auto split: prod.splits sum.splits dest!: container_start_frame simp: sleep_frame)

lemma container_inspect_healthy:
  assumes "faults e = []" "map_of (containers e) cid = Some c"
  shows "\<exists>e'. container_inspect cid e = (Inr (cstatus c, reported_port (cports c)), e') \<and>
           faults e' = [] \<and>
           map_of (containers e') cid =
             Some (c\<lparr>cports := next_ports (cports c)\<rparr>)"
  using assms by (simp add: container_inspect_def issue_def map_of_map_at)

lemma set_next_ports: "set (next_ports ps) \<subseteq> set ps"
  by (induction ps rule: next_ports.induct) auto

lemma waitLoop_frame:
  "waitLoop start t cid e = (r, e') \<Longrightarrow>
     map fst (containers e') = map fst (containers e) \<and> images e' = images e \<and>
     freshIds e' = freshIds e \<and> portPlan e' = portPlan e \<and>
     (\<not> p (CInspect cid) \<and> (\<forall>d. \<not> p (CSleep d)) \<longrightarrow> ncalls p e' = ncalls p e)"
proof (induction start t cid e arbitrary: r e' rule: waitLoop.induct)
  case (1 start t cid e)
  show ?case
  proof (cases "clock e - start < t")
    case False
    with "1.prems" show ?thesis by (simp add: waitLoop.simps [of start t cid e])
  next
    case True
    obtain ri e1 where insp: "container_inspect cid e = (ri, e1)" by (cases "container_inspect cid e")
    note fr = container_inspect_frame [OF insp]
    have nc: "\<not> p (CInspect cid) \<Longrightarrow> ncalls p e1 = ncalls p e"
      using fr by (simp add: ncalls_def)
    show ?thesis
    proof (cases ri)
      case (Inl err)
      with "1.prems" True insp have "e' = e1" by (simp add: waitLoop.simps [of start t cid e])
      with fr nc show ?thesis by simp
    next
      case (Inr sp)
      obtain status port where sp: "sp = (status, port)" by (cases sp)
      show ?thesis
      proof (cases "port > 0")
        case True
        with "1.prems" \<open>clock e - start < t\<close> insp Inr sp have "e' = e1"
          by (simp add: waitLoop.simps [of start t cid e])
        with fr nc show ?thesis by simp
      next
        case False
        with "1.prems" \<open>clock e - start < t\<close> insp Inr sp
        have rec: "waitLoop start t cid (sleep 100 e1) = (r, e')"
          by (simp add: waitLoop.simps [of start t cid e])
        from "1.IH" [OF \<open>clock e - start < t\<close> insp [symmetric] Inr sp [symmetric] False rec]
        show ?thesis using fr nc by (simp add: sleep_frame ncalls_sleep)
      qed
    qed
  qed
qed

lemma waitLoop_healthy:
  "faults e = [] \<Longrightarrow> map_of (containers e) cid = Some c \<Longrightarrow>
     \<exists>port e'. waitLoop start t cid e = (Inr port, e') \<and> faults e' = [] \<and>
        (set (cports c) \<subseteq> {0} \<longrightarrow> port = 0)"
proof (induction start t cid e arbitrary: c rule: waitLoop.induct)
  case (1 start t cid e)
  show ?case
  proof (cases "clock e - start < t")
    case False
    with "1.prems" show ?thesis by (simp add: waitLoop.simps [of start t cid e])
  next
    case True
    from container_inspect_healthy [OF "1.prems"(1,2)]
    obtain e1 where insp: "container_inspect cid e =
          (Inr (cstatus c, reported_port (cports c)), e1)"
      and f1: "faults e1 = []"
      and c1: "map_of (containers e1) cid =
             Some (c\<lparr>cports := next_ports (cports c)\<rparr>)"
      by blast
    let ?port = "reported_port (cports c)"
    show ?thesis
    proof (cases "?port > 0")
      case True
      have "set (cports c) \<subseteq> {0} \<Longrightarrow> ?port = 0" by (cases "cports c") (auto simp: reported_port_def)
      with True have "\<not> set (cports c) \<subseteq> {0}" by auto
      with True \<open>clock e - start < t\<close> insp f1 show ?thesis
        by (simp add: waitLoop.simps [of start t cid e])
    next
      case False
      have fs: "faults (sleep 100 e1) = []" using f1 by (simp add: sleep_frame)
      have cs: "map_of (containers (sleep 100 e1)) cid =
             Some (c\<lparr>cports := next_ports (cports c)\<rparr>)"
        using c1 by (simp add: sleep_frame)
      from "1.IH" [OF \<open>clock e - start < t\<close> insp [symmetric] refl refl False fs cs]
      obtain port e' where rec: "waitLoop start t cid (sleep 100 e1) = (Inr port, e')"
        and f': "faults e' = []"
        and z: "set (cports (c\<lparr>cports := next_ports (cports c)\<rparr>)) \<subseteq> {0}
                  \<longrightarrow> port = 0"
        by blast
      have sub: "set (cports c) \<subseteq> {0} \<Longrightarrow>
           set (cports (c\<lparr>cports := next_ports (cports c)\<rparr>)) \<subseteq> {0}"
        using set_next_ports [of "cports c"] by auto
      from False \<open>clock e - start < t\<close> insp rec
      have "waitLoop start t cid e = (Inr port, e')"
        by (simp add: waitLoop.simps [of start t cid e])
      with f' z sub show ?thesis by blast
    qed
  qed
qed

lemma ncalls_append:
  "calls e' = calls e @ xs \<Longrightarrow> ncalls p e' = ncalls p e + length (filter p xs)"
  by (simp add: ncalls_def)

lemma ensureImageExists_quiet:
  "ensureImageExists img e = (r, e') \<Longrightarrow> quiet e e'"
  by (auto simp: ensureImageExists_def quiet_def ncalls_def is_teardown_def is_create_def is_start_def
           split: prod.splits sum.splits dest!: image_inspect_frame pull_frame)

lemma createContainer_effect:
  "createContainer img e = (r, e') \<Longrightarrow>
     ncalls is_teardown e' = ncalls is_teardown e \<and> ncalls is_create e' = Suc (ncalls is_create e) \<and>
     ncalls is_start e' = ncalls is_start e \<and>
     length (containers e') = (if isl r then length (containers e) else Suc (length (containers e)))"
  by (auto simp: ncalls_def is_teardown_def is_create_def is_start_def
           split: sum.splits dest!: createContainer_frame)

lemma startContainerWithRetry_effect:
  assumes "startContainerWithRetry cid e = (r, e')"
  shows "ncalls is_teardown e' = ncalls is_teardown e \<and> ncalls is_create e' = ncalls is_create e \<and>
     ncalls is_start e' \<le> ncalls is_start e + 3 \<and> map fst (containers e') = map fst (containers e)"
proof -
  from startContainerWithRetry_calls [OF assms] obtain xs where
    xs: "calls e' = calls e @ xs"
        "xs = [CStart cid] \<or> xs = [CStart cid, CSleep 1000, CStart cid] \<or>
         xs = [CStart cid, CSleep 1000, CStart cid, CSleep 2000, CStart cid]" by blast
  from xs(2) have "length (filter is_teardown xs) = 0 \<and> length (filter is_create xs) = 0 \<and>
      length (filter is_start xs) \<le> 3"
    by (auto simp: is_teardown_def is_create_def is_start_def)
  with ncalls_append [OF xs(1)] startContainerWithRetry_frame [OF assms] show ?thesis by simp
qed

lemma waitForHostPort_quiet:
  "waitForHostPort cid e = (r, e') \<Longrightarrow> quiet e e'"
  unfolding waitForHostPort_def quiet_def
  using waitLoop_frame [of "clock e" 5000 cid e r e']
  by (simp add: is_teardown_def is_create_def is_start_def)

lemma container_inspect_quiet:
  "container_inspect cid e = (r, e') \<Longrightarrow> quiet e e'"
  by (auto simp: quiet_def ncalls_def is_teardown_def is_create_def is_start_def
           dest!: container_inspect_frame)

lemma quiet_length: "quiet e e' \<Longrightarrow> length (containers e') = length (containers e)"
  unfolding quiet_def by (metis length_map)

lemma provision_effect:
  assumes "provision cfg img e = (r, e')"
  shows "ncalls is_teardown e' = ncalls is_teardown e \<and>
         ncalls is_create e' \<le> ncalls is_create e + 1 \<and>
         ncalls is_start e' \<le> ncalls is_start e + 3 \<and>
         length (containers e) \<le> length (containers e') \<and>
         length (containers e') \<le> length (containers e) + 1"
proof -
  obtain r1 e1 where s1: "ensureImageExists img e = (r1, e1)"
    by (cases "ensureImageExists img e")
  note q1 = ensureImageExists_quiet [OF s1] quiet_length [OF ensureImageExists_quiet [OF s1]]
  show ?thesis
  proof (cases r1)
    case (Inl err)
    with assms s1 have "e' = e1" by (simp add: provision_def)
    with q1 show ?thesis by (simp add: quiet_def)
  next
    case r1: (Inr u)
    show ?thesis
    proof (cases "parseMemoryLimit (docker_memoryLimit cfg)")
      case (Inl err)
      with assms s1 r1 have "e' = e1" by (simp add: provision_def)
      with q1 show ?thesis by (simp add: quiet_def)
    next
      case m: (Inr mem)
      obtain r2 e2 where s2: "createContainer img e1 = (r2, e2)"
        by (cases "createContainer img e1")
      note q2 = createContainer_effect [OF s2]
      show ?thesis
      proof (cases r2)
        case (Inl err)
        with assms s1 r1 m s2 have "e' = e2" by (simp add: provision_def)
        with q1 q2 Inl show ?thesis by (simp add: quiet_def)
      next
        case r2: (Inr cid)
        obtain r3 e3 where s3: "startContainerWithRetry cid e2 = (r3, e3)"
          by (cases "startContainerWithRetry cid e2")
        note q3 = startContainerWithRetry_effect [OF s3]
        from q3 have l3: "length (containers e3) = length (containers e2)" by (metis length_map)
        show ?thesis
        proof (cases r3)
          case (Inl err)
          with assms s1 r1 m s2 r2 s3 have "e' = e3" by (simp add: provision_def)
          with q1 q2 q3 l3 r2 show ?thesis by (simp add: quiet_def)
        next
          case r3: (Inr u3)
          obtain r4 e4 where s4: "waitForHostPort cid e3 = (r4, e4)"
            by (cases "waitForHostPort cid e3")
          note q4 = waitForHostPort_quiet [OF s4] quiet_length [OF waitForHostPort_quiet [OF s4]]
          show ?thesis
          proof (cases r4)
            case (Inl err)
            with assms s1 r1 m s2 r2 s3 r3 s4 have "e' = e4" by (simp add: provision_def)
            with q1 q2 q3 l3 q4 r2 show ?thesis by (simp add: quiet_def)
          next
            case r4: (Inr port)
            obtain r5 e5 where s5: "container_inspect cid e4 = (r5, e5)"
              by (cases "container_inspect cid e4")
            note q5 = container_inspect_quiet [OF s5] quiet_length [OF container_inspect_quiet [OF s5]]
            from assms s1 r1 m s2 r2 s3 r3 s4 r4 s5 have "e' = e5"
              by (cases r5) (auto simp: provision_def)
            with q1 q2 q3 l3 q4 q5 r2 show ?thesis by (simp add: quiet_def)
          qed
        qed
      qed
    qed
  qed
qed

subsection \<open>Provisioning and createSession\<close>




lemma store_createSession_effect:
  assumes "store_createSession cid port d uid now st = (session, st')"
  shows "containerId session = cid \<and> hostPort session = port \<and> expiresAt session = now + d \<and>
         timer session = Some (nextTimer st) \<and>
         sessions st' = AList.update cid session (sessions st) \<and>
         timers st' = AList.update (nextTimer st) (cid, timer_delay d) (timers st) \<and>
         nextTimer st' = Suc (nextTimer st) \<and>
         redis st' = redis st"
  using assms
  by (cases "redis st")
     (auto simp: store_createSession_def setTimeout_def persistSession_def serialise_def Let_def)

lemma parse_2g: "parseMemoryLimit ''2g'' = Inr 2147483648"
  by (simp add: parseMemoryLimit_def is_digit_def digits_value_def unit_factor_def)


lemma createSession_failure_effect:
  assumes "createSession cfg d uid w = (Inl err, w')"
  shows "store w' = store w \<and> ncalls is_teardown (env w') = ncalls is_teardown (env w) \<and>
         length (containers (env w)) \<le> length (containers (env w'))"
proof (cases "getActiveSessionsCount (store w) \<ge> maxSessions cfg")
  case True
  with assms show ?thesis by (simp add: createSession_def)
next
  case False
  obtain n e1 where cnt: "getActiveContainersCount (env w) = (n, e1)"
    by (cases "getActiveContainersCount (env w)")
  then have fr: "calls e1 = calls (env w) @ [CList] \<and> containers e1 = containers (env w)"
    by (auto simp: getActiveContainersCount_def split: prod.splits sum.splits dest!: listRunning_frame)
  then have q: "ncalls is_teardown e1 = ncalls is_teardown (env w)"
    by (simp add: ncalls_def is_teardown_def)
  obtain r e2 where sc: "startContainer cfg (docker_image cfg) (env w) = (r, e2)"
    by (cases "startContainer cfg (docker_image cfg) (env w)")
  from assms False sc have r: "isl r" and w': "w' = w\<lparr>env := e2\<rparr>"
    by (auto simp: createSession_def split: sum.splits prod.splits)
  show ?thesis
  proof (cases "int n \<ge> maxSessions cfg")
    case True
    with sc cnt have "e2 = e1" by (simp add: startContainer_def)
    with w' q fr show ?thesis by simp
  next
    case False
    with sc cnt have "provision cfg (docker_image cfg) e1 = (r, e2)" by (simp add: startContainer_def)
    from provision_effect [OF this] w' q fr show ?thesis by simp
  qed
qed

lemma failing_world_run:
  "fst (createSession demo_cfg None None failing_world) = Inl (RuntimeFailure (CStart ''c1'')) \<and>
   map_of (containers (env (snd (createSession demo_cfg None None failing_world)))) ''c1''
     = Some \<lparr>cstatus = Created, clabelled = True, cports = [0, 32768]\<rparr> \<and>
   ncalls is_teardown (env (snd (createSession demo_cfg None None failing_world))) = 0"
  by (simp add: createSession_def failing_world_def empty_store_def demo_env_def demo_cfg_def
        getActiveSessionsCount_def startContainer_def getActiveContainersCount_def listRunning_def
        issue_def provision_def ensureImageExists_def image_inspect_def parse_2g createContainer_def
        startContainerWithRetry_unfold container_start_def sleep_def ncalls_def is_teardown_def)

subsection \<open>Calls of createSession one after the other\<close>

lemma run_single:
  "run cfg [0, 0, 0] [Entry] w =
     ([Finished (fst (createSession cfg None None w))], snd (createSession cfg None None w))"
  by (simp add: createSession_def startContainer_def split: prod.splits sum.splits)

lemma length_update_le: "length (AList.update k v xs) \<le> Suc (length xs)"
  by (induction xs) auto

lemma createSession_sequential_ceiling:
  assumes "getActiveSessionsCount (store w) \<le> maxSessions cfg"
  shows "getActiveSessionsCount (store (snd (createSession cfg d uid w))) \<le> maxSessions cfg"
proof (cases "getActiveSessionsCount (store w) \<ge> maxSessions cfg")
  case True
  with assms show ?thesis by (simp add: createSession_def)
next
  case False
  obtain r e1 where sc: "startContainer cfg (docker_image cfg) (env w) = (r, e1)"
    by (cases "startContainer cfg (docker_image cfg) (env w)")
  show ?thesis
  proof (cases r)
    case (Inl err)
    with sc False assms show ?thesis by (simp add: createSession_def)
  next
    case (Inr info)
    obtain session st' where cs: "store_createSession (info_id info) (info_hostPort info)
        (sessionDuration cfg d) uid (clock e1) (store w) = (session, st')"
      by (cases "store_createSession (info_id info) (info_hostPort info)
        (sessionDuration cfg d) uid (clock e1) (store w)")
    from store_createSession_effect [OF cs]
    have "length (sessions st') \<le> Suc (length (sessions (store w)))"
      by (simp add: length_update_le)
    moreover have "store (snd (createSession cfg d uid w)) = st'"
      using sc Inr False cs by (simp add: createSession_def register_def)
    ultimately show ?thesis using False by (simp add: getActiveSessionsCount_def)
  qed
qed

subsection \<open>Stopping\<close>

lemma store_removeSession_effect:
  assumes "store_removeSession cid st = (b, st')"
  shows "b = (map_of (sessions st) cid \<noteq> None) \<and> map_of (sessions st') cid = None \<and>
         (\<not> b \<longrightarrow> st' = st)"
  using assms
  by (auto simp: store_removeSession_def clearTimeout_def removeSessionFromRedis_def Let_def delete_conv'
           split: option.splits)

lemma stopContainer_effect:
  assumes "stopContainer cid e = (b, e')"
  shows "ncalls (\<lambda>c. c = CRemove cid) e' \<le> ncalls (\<lambda>c. c = CRemove cid) e + 1"
proof -
  obtain r1 e1 where s1: "container_inspect cid e = (r1, e1)" by (cases "container_inspect cid e")
  from container_inspect_frame [OF s1]
  have n1: "ncalls (\<lambda>c. c = CRemove cid) e1 = ncalls (\<lambda>c. c = CRemove cid) e"
    by (simp add: ncalls_def)
  show ?thesis
  proof (cases r1)
    case (Inl err)
    with assms s1 have "e' = e1" by (simp add: stopContainer_def)
    with n1 show ?thesis by simp
  next
    case (Inr sp)
    obtain status port where sp: "sp = (status, port)" by (cases sp)
    obtain r2 e2 where s2: "(if status = Running then container_stop cid e1 else (Inr (), e1)) = (r2, e2)"
      by (cases "if status = Running then container_stop cid e1 else (Inr (), e1)")
    have n2: "ncalls (\<lambda>c. c = CRemove cid) e2 = ncalls (\<lambda>c. c = CRemove cid) e1"
      using s2 by (auto simp: ncalls_def split: if_splits dest!: container_stop_frame)
    show ?thesis
    proof (cases r2)
      case (Inl err)
      with assms s1 Inr sp s2 have "e' = e2" by (simp add: stopContainer_def)
      with n1 n2 show ?thesis by simp
    next
      case r2: (Inr u)
      obtain r3 e3 where s3: "container_remove cid e2 = (r3, e3)" by (cases "container_remove cid e2")
      from container_remove_frame [OF s3]
      have n3: "ncalls (\<lambda>c. c = CRemove cid) e3 = ncalls (\<lambda>c. c = CRemove cid) e2 + 1"
        by (simp add: ncalls_def)
      from assms s1 Inr sp s2 r2 s3 have "e' = e3"
        by (cases r3) (simp_all add: stopContainer_def)
      with n1 n2 n3 show ?thesis by simp
    qed
  qed
qed

lemma container_stop_healthy:
  assumes "faults e = []" "map_of (containers e) cid = Some c"
  shows "\<exists>e'. container_stop cid e = (Inr (), e') \<and> faults e' = [] \<and>
           map_of (containers e') cid = Some (c\<lparr>cstatus := Exited\<rparr>)"
  using assms by (simp add: container_stop_def issue_def set_status_def map_of_map_at)

lemma container_remove_healthy:
  assumes "faults e = []" "map_of (containers e) cid = Some c"
  shows "\<exists>e'. container_remove cid e = (Inr (), e') \<and> map_of (containers e') cid = None"
  using assms by (simp add: container_remove_def issue_def delete_conv')

lemma stopContainer_healthy:
  assumes f: "faults e = []" and c: "map_of (containers e) cid = Some c"
  shows "\<exists>e'. stopContainer cid e = (True, e') \<and>
           ncalls (\<lambda>c. c = CRemove cid) e' = ncalls (\<lambda>c. c = CRemove cid) e + 1 \<and>
           map_of (containers e') cid = None"
proof -
  from container_inspect_healthy [OF f c] obtain e1 where
    s1: "container_inspect cid e = (Inr (cstatus c, reported_port (cports c)), e1)"
    and f1: "faults e1 = []"
    and c1: "map_of (containers e1) cid = Some (c\<lparr>cports := next_ports (cports c)\<rparr>)" by blast
  from container_inspect_frame [OF s1]
  have n1: "ncalls (\<lambda>c. c = CRemove cid) e1 = ncalls (\<lambda>c. c = CRemove cid) e"
    by (simp add: ncalls_def)
  have "\<exists>e2 c2. (if cstatus c = Running then container_stop cid e1 else (Inr (), e1)) = (Inr (), e2) \<and>
          faults e2 = [] \<and> map_of (containers e2) cid = Some c2 \<and>
          ncalls (\<lambda>c. c = CRemove cid) e2 = ncalls (\<lambda>c. c = CRemove cid) e1"
  proof (cases "cstatus c = Running")
    case True
    from container_stop_healthy [OF f1 c1] obtain e2 where
      s2: "container_stop cid e1 = (Inr (), e2)" and "faults e2 = []"
      and "map_of (containers e2) cid = Some (c\<lparr>cports := next_ports (cports c), cstatus := Exited\<rparr>)"
      by auto
    moreover from container_stop_frame [OF s2]
    have "ncalls (\<lambda>c. c = CRemove cid) e2 = ncalls (\<lambda>c. c = CRemove cid) e1"
      by (simp add: ncalls_def)
    ultimately show ?thesis using True by auto
  next
    case False
    with f1 c1 show ?thesis by simp
  qed
  then obtain e2 c2 where
    s2: "(if cstatus c = Running then container_stop cid e1 else (Inr (), e1)) = (Inr (), e2)"
    and f2: "faults e2 = []" and c2: "map_of (containers e2) cid = Some c2"
    and n2: "ncalls (\<lambda>c. c = CRemove cid) e2 = ncalls (\<lambda>c. c = CRemove cid) e1" by blast
  from container_remove_healthy [OF f2 c2] obtain e3 where
    s3: "container_remove cid e2 = (Inr (), e3)" and c3: "map_of (containers e3) cid = None" by blast
  from container_remove_frame [OF s3]
  have n3: "ncalls (\<lambda>c. c = CRemove cid) e3 = ncalls (\<lambda>c. c = CRemove cid) e2 + 1"
    by (simp add: ncalls_def)
  have "stopContainer cid e = (True, e3)"
    using s1 s2 s3 by (simp add: stopContainer_def)
  with n1 n2 n3 c3 show ?thesis by simp
qed

lemma stopSession_result:
  "fst (stopSession cid w) = (fst (stopContainer cid (env w)) \<and> getSession (store w) cid \<noteq> None)"
  by (auto simp: stopSession_def getSession_def split: prod.splits dest!: store_removeSession_effect)

lemma stopSession_handler_answer:
  "stopSession_handler True cid w = (r, w') \<Longrightarrow>
     http_status r = 200 \<and> success r \<and> payload r = StoppedData cid True"
  by (auto simp: stopSession_handler_def split: if_splits prod.splits bool.splits)

lemma stopSession_handler_idle:
  "\<not> isSessionActive w cid \<Longrightarrow> snd (stopSession_handler True cid w) = w"
  by (simp add: stopSession_handler_def)

lemma stopSession_handler_removes:
  assumes "isSessionActive w cid"
  shows "snd (stopSession_handler True cid w) = snd (stopSession cid w) \<and>
         getSession (store (snd (stopSession cid w))) cid = None"
  using assms
  by (auto simp: stopSession_handler_def stopSession_def getSession_def
           split: prod.splits bool.splits dest!: store_removeSession_effect)

lemma not_active_without_session:
  "getSession (store w) cid = None \<Longrightarrow> \<not> isSessionActive w cid"
  by (simp add: isSessionActive_def store_isSessionActive_def getSession_def)

lemma stop_twice:
  assumes h1: "stopSession_handler True cid w = (r1, w1)"
    and h2: "stopSession_handler True cid w1 = (r2, w2)"
  shows "http_status r1 = 200 \<and> success r1 \<and> payload r1 = StoppedData cid True \<and>
         http_status r2 = 200 \<and> success r2 \<and> payload r2 = StoppedData cid True \<and>
         w2 = w1 \<and>
         ncalls (\<lambda>c. c = CRemove cid) (env w2) \<le> ncalls (\<lambda>c. c = CRemove cid) (env w) + 1 \<and>
         (isSessionActive w cid \<longrightarrow> getSession (store w1) cid = None) \<and>
         (isSessionActive w cid \<and> faults (env w) = [] \<and> cid \<in> fst ` set (containers (env w)) \<longrightarrow>
            ncalls (\<lambda>c. c = CRemove cid) (env w2) = ncalls (\<lambda>c. c = CRemove cid) (env w) + 1 \<and>
            cid \<notin> fst ` set (containers (env w2)))"
proof -
  note a1 = stopSession_handler_answer [OF h1] and a2 = stopSession_handler_answer [OF h2]
  have idle1: "\<not> isSessionActive w1 cid"
  proof (cases "isSessionActive w cid")
    case True
    from stopSession_handler_removes [OF True] h1 have "getSession (store w1) cid = None" by simp
    then show ?thesis by (rule not_active_without_session)
  next
    case False
    with stopSession_handler_idle [OF False, of ] h1 show ?thesis by simp
  qed
  from stopSession_handler_idle [OF idle1] h2 have w2: "w2 = w1" by simp
  have gone: "isSessionActive w cid \<longrightarrow> getSession (store w1) cid = None"
    using stopSession_handler_removes [of w cid] h1 by auto
  have env1: "isSessionActive w cid \<Longrightarrow> env w1 = snd (stopContainer cid (env w))"
    using stopSession_handler_removes [of w cid] h1
    by (auto simp: stopSession_def split: prod.splits)
  have le: "ncalls (\<lambda>c. c = CRemove cid) (env w1) \<le> ncalls (\<lambda>c. c = CRemove cid) (env w) + 1"
  proof (cases "isSessionActive w cid")
    case True
    obtain b e' where sc: "stopContainer cid (env w) = (b, e')" by (cases "stopContainer cid (env w)")
    from stopContainer_effect [OF sc] env1 [OF True] sc show ?thesis by simp
  next
    case False
    with stopSession_handler_idle [OF False] h1 show ?thesis by simp
  qed
  have ex: "isSessionActive w cid \<and> faults (env w) = [] \<and> cid \<in> fst ` set (containers (env w)) \<longrightarrow>
            ncalls (\<lambda>c. c = CRemove cid) (env w1) = ncalls (\<lambda>c. c = CRemove cid) (env w) + 1 \<and>
            cid \<notin> fst ` set (containers (env w1))"
  proof
    assume h: "isSessionActive w cid \<and> faults (env w) = [] \<and> cid \<in> fst ` set (containers (env w))"
    then obtain c where c: "map_of (containers (env w)) cid = Some c"
      by (metis map_of_eq_None_iff not_Some_eq)
    from stopContainer_healthy [OF _ c] h obtain e' where
      "stopContainer cid (env w) = (True, e')"
      "ncalls (\<lambda>c. c = CRemove cid) e' = ncalls (\<lambda>c. c = CRemove cid) (env w) + 1"
      "map_of (containers e') cid = None" by blast
    with env1 h show "ncalls (\<lambda>c. c = CRemove cid) (env w1) = ncalls (\<lambda>c. c = CRemove cid) (env w) + 1 \<and>
            cid \<notin> fst ` set (containers (env w1))"
      by (simp add: map_of_eq_None_iff)
  qed
  from a1 a2 w2 le gone ex show ?thesis by simp
qed

subsection \<open>The store, its timers and its mirror\<close>

lemma updateSessionExpiry_effect:
  assumes "map_of (sessions st) cid = Some s"
  shows "\<exists>st'. updateSessionExpiry cid new now st = (True, st') \<and>
           map_of (sessions st') cid = Some (s\<lparr>expiresAt := new, timer := Some (nextTimer st)\<rparr>) \<and>
           map_of (timers st') (nextTimer st) = Some (cid, timer_delay (new - now)) \<and>
           (\<forall>h. timer s = Some h \<and> h \<noteq> nextTimer st \<longrightarrow> map_of (timers st') h = None) \<and>
           nextTimer st' = Suc (nextTimer st) \<and>
           redis st' = redis st"
proof (cases "timer s")
  case None
  with assms show ?thesis
    by (cases "redis st")
       (simp_all add: updateSessionExpiry_def clearTimeout_def setTimeout_def persistSession_def
          serialise_def Let_def update_conv')
next
  case (Some h0)
  with assms show ?thesis
    by (cases "redis st")
       (simp_all add: updateSessionExpiry_def clearTimeout_def setTimeout_def persistSession_def
          serialise_def Let_def update_conv' delete_conv')
qed

lemma updateSessionExpiry_missing:
  "map_of (sessions st) cid = None \<Longrightarrow> updateSessionExpiry cid new now st = (False, st)"
  by (simp add: updateSessionExpiry_def)

lemma extendSession_present:
  assumes "getSession (store w) cid = Some s"
  shows "\<exists>w' s'. extendSession cid extraMs w = (True, w') \<and> getSession (store w') cid = Some s' \<and>
           expiresAt s' = expiresAt s + extraMs \<and>
           timer s' = Some (nextTimer (store w)) \<and>
           map_of (timers (store w')) (nextTimer (store w))
             = Some (cid, timer_delay (expiresAt s' - clock (env w))) \<and>
           (\<forall>h. timer s = Some h \<and> h \<noteq> nextTimer (store w) \<longrightarrow> map_of (timers (store w')) h = None) \<and>
           redis (store w') = redis (store w) \<and>
           env w' = env w"
proof -
  from assms have m: "map_of (sessions (store w)) cid = Some s" by (simp add: getSession_def)
  from updateSessionExpiry_effect [OF m, of "expiresAt s + extraMs" "clock (env w)"]
  obtain st' where u: "updateSessionExpiry cid (expiresAt s + extraMs) (clock (env w)) (store w) = (True, st')"
    and s': "map_of (sessions st') cid = Some (s\<lparr>expiresAt := expiresAt s + extraMs, timer := Some (nextTimer (store w))\<rparr>)"
    and t: "map_of (timers st') (nextTimer (store w)) = Some (cid, timer_delay (expiresAt s + extraMs - clock (env w)))"
    and old: "\<forall>h. timer s = Some h \<and> h \<noteq> nextTimer (store w) \<longrightarrow> map_of (timers st') h = None"
    and rd: "redis st' = redis (store w)"
    by blast
  have "extendSession cid extraMs w = (True, w\<lparr>store := st'\<rparr>)"
    using assms u by (simp add: extendSession_def)
  with s' t old rd show ?thesis by (simp add: getSession_def)
qed

lemma extendSession_missing:
  "getSession (store w) cid = None \<Longrightarrow> extendSession cid extraMs w = (False, w)"
  by (simp add: extendSession_def)

lemma extendSession_handler_inactive:
  "\<not> isSessionActive w cid \<Longrightarrow>
     extendSession_handler True cid extraMs w =
       (\<lparr>http_status = 404, success = False, message = ''Session not found or already expired'',
         payload = ExtendedData cid False\<rparr>, w)"
  by (simp add: extendSession_handler_def)

lemma extendSession_handler_active:
  assumes "isSessionActive w cid"
  shows "http_status (fst (extendSession_handler True cid extraMs w)) = 200 \<and>
         snd (extendSession_handler True cid extraMs w) = snd (extendSession cid extraMs w)"
proof -
  from assms obtain s where s: "getSession (store w) cid = Some s"
    by (auto simp: isSessionActive_def store_isSessionActive_def getSession_def split: option.splits)
  from extendSession_present [OF s, of extraMs] obtain w' where
    "extendSession cid extraMs w = (True, w')" by blast
  with assms show ?thesis by (simp add: extendSession_handler_def)
qed

lemma redis_process_frame:
  "inflight (snd (redis_process c r)) = inflight r \<and>
   (rfaults r = [] \<longrightarrow> rfaults (snd (redis_process c r)) = [])"
  by (auto simp: redis_process_def redis_fault_def split: list.splits option.splits bool.splits prod.splits)

lemma fold_process_frame:
  "inflight (fold (\<lambda>c r'. snd (redis_process c r')) cs r) = inflight r \<and>
   (rfaults r = [] \<longrightarrow> rfaults (fold (\<lambda>c r'. snd (redis_process c r')) cs r) = [])"
  by (induction cs arbitrary: r) (simp_all add: redis_process_frame)

lemma redis_settle_frame:
  "inflight (redis_settle r) = [] \<and> (rfaults r = [] \<longrightarrow> rfaults (redis_settle r) = [])"
  using fold_process_frame [of "inflight r" "r\<lparr>inflight := []\<rparr>"] by (simp add: redis_settle_def)

lemma redis_settle_healthy: "healthy r \<Longrightarrow> redis_settle r = r"
  by (simp add: healthy_def redis_settle_def)

lemma redis_del_effect:
  "inflight (snd (redis_del k r)) = [] \<and>
   (rfaults r = [] \<longrightarrow> fst (redis_del k r) \<and> rfaults (snd (redis_del k r)) = [] \<and>
      map_of (entries (snd (redis_del k r))) k = None)"
  using redis_settle_frame [of r]
  by (auto simp: redis_del_def redis_process_def redis_fault_def delete_conv'
           split: list.splits prod.splits bool.splits)

lemma store_removeSession_mirror:
  assumes "map_of (sessions st) cid = Some s" "redis st = Some r"
  shows "\<exists>st' r'. store_removeSession cid st = (True, st') \<and> redis st' = Some r' \<and>
           r' = snd (redis_del (session_key cid) r) \<and> inflight r' = [] \<and>
           (rfaults r = [] \<longrightarrow> map_of (entries r') (session_key cid) = None)"
  using assms redis_del_effect [of "session_key cid" r]
  by (simp add: store_removeSession_def clearTimeout_def removeSessionFromRedis_def Let_def
           split: option.splits)

lemma redis_get_healthy:
  "healthy r \<Longrightarrow> redis_get k r = (Inr (map_option snd (map_of (entries r) k)), r)"
  by (simp add: redis_get_def redis_settle_healthy redis_fault_def healthy_def)

lemma redis_del_healthy:
  "healthy r \<Longrightarrow> redis_del k r = (True, r\<lparr>entries := AList.delete k (entries r)\<rparr>)"
  by (simp add: redis_del_def redis_settle_healthy redis_process_def redis_fault_def healthy_def)

lemma redis_keys_healthy:
  "healthy r \<Longrightarrow>
     redis_keys r = (Inr (filter (\<lambda>k. take 8 k = ''session:'') (map fst (entries r))), r)"
  by (simp add: redis_keys_def redis_settle_healthy redis_fault_def healthy_def)

lemma wellkeyed_lookup:
  "wellkeyed es \<Longrightarrow> map_of es k = Some (ttl, s) \<Longrightarrow> k = session_key (containerId s)"
  by (auto simp: wellkeyed_def list_all_iff dest!: map_of_SomeD)

lemma wellkeyed_delete: "wellkeyed es \<Longrightarrow> wellkeyed (AList.delete k es)"
  by (auto simp: wellkeyed_def list_all_iff AList.delete_eq)

lemma session_key_inject: "(session_key a = session_key b) = (a = b)"
  by (simp add: session_key_def)

lemma loadKeys_healthy:
  assumes "healthy r" "wellkeyed (entries r)"
  shows "\<exists>ss' r'. loadKeys now ks ss r = (ss', r') \<and> healthy r' \<and>
      (\<forall>k. map_of (entries r') k =
         (if k \<in> set ks \<and> (\<exists>ttl s. map_of (entries r) k = Some (ttl, s) \<and> expiresAt s \<le> now)
          then None else map_of (entries r) k)) \<and>
      (\<forall>c. map_of ss' c =
         (case map_of (entries r) (session_key c) of
            None \<Rightarrow> map_of ss c
          | Some (ttl, s) \<Rightarrow>
              if session_key c \<in> set ks \<and> now < expiresAt s then Some s else map_of ss c))"
  using assms
proof (induction ks arbitrary: ss r)
  case Nil
  then show ?case by (auto split: option.splits)
next
  case (Cons key keys)
  note h = \<open>healthy r\<close> and wk = \<open>wellkeyed (entries r)\<close>
  show ?case
  proof (cases "map_of (entries r) key")
    case None
    then have step: "loadKeys now (key # keys) ss r = loadKeys now keys ss r"
      using h by (simp add: redis_get_healthy)
    from Cons.IH [OF h wk, of ss] obtain ss' r' where
      l: "loadKeys now keys ss r = (ss', r')" and h': "healthy r'"
      and e: "\<forall>k. map_of (entries r') k =
         (if k \<in> set keys \<and> (\<exists>ttl s. map_of (entries r) k = Some (ttl, s) \<and> expiresAt s \<le> now)
          then None else map_of (entries r) k)"
      and m: "\<forall>c. map_of ss' c =
         (case map_of (entries r) (session_key c) of
            None \<Rightarrow> map_of ss c
          | Some (ttl, s) \<Rightarrow>
              if session_key c \<in> set keys \<and> now < expiresAt s then Some s else map_of ss c)"
      by blast
    have e': "\<forall>k. map_of (entries r') k =
         (if k \<in> set (key # keys) \<and> (\<exists>ttl s. map_of (entries r) k = Some (ttl, s) \<and> expiresAt s \<le> now)
          then None else map_of (entries r) k)"
      using e None by auto
    have m': "\<forall>c. map_of ss' c =
         (case map_of (entries r) (session_key c) of
            None \<Rightarrow> map_of ss c
          | Some (ttl, s) \<Rightarrow>
              if session_key c \<in> set (key # keys) \<and> now < expiresAt s then Some s else map_of ss c)"
    proof
      fix c
      show "map_of ss' c =
         (case map_of (entries r) (session_key c) of
            None \<Rightarrow> map_of ss c
          | Some (ttl, s) \<Rightarrow>
              if session_key c \<in> set (key # keys) \<and> now < expiresAt s then Some s else map_of ss c)"
        using m [rule_format, of c] None by (cases "session_key c = key") (auto split: option.splits)
    qed
    from step l h' e' m' show ?thesis by simp
  next
    case (Some v)
    obtain ttl s where v: "v = (ttl, s)" by (cases v)
    from wellkeyed_lookup [OF wk] Some v have key: "key = session_key (containerId s)" by simp
    show ?thesis
    proof (cases "now < expiresAt s")
      case True
      have step: "loadKeys now (key # keys) ss r =
                  loadKeys now keys (AList.update (containerId s) s ss) r"
        using h Some v True by (simp add: redis_get_healthy)
      from Cons.IH [OF h wk, of "AList.update (containerId s) s ss"] obtain ss' r' where
        l: "loadKeys now keys (AList.update (containerId s) s ss) r = (ss', r')" and h': "healthy r'"
        and e: "\<forall>k. map_of (entries r') k =
           (if k \<in> set keys \<and> (\<exists>ttl s. map_of (entries r) k = Some (ttl, s) \<and> expiresAt s \<le> now)
            then None else map_of (entries r) k)"
        and m: "\<forall>c. map_of ss' c =
           (case map_of (entries r) (session_key c) of
              None \<Rightarrow> map_of (AList.update (containerId s) s ss) c
            | Some (ttl, s') \<Rightarrow>
                if session_key c \<in> set keys \<and> now < expiresAt s' then Some s'
                else map_of (AList.update (containerId s) s ss) c)"
        by blast
      have e': "\<forall>k. map_of (entries r') k =
           (if k \<in> set (key # keys) \<and> (\<exists>ttl s. map_of (entries r) k = Some (ttl, s) \<and> expiresAt s \<le> now)
            then None else map_of (entries r) k)"
        using e Some v True by auto
      have m': "\<forall>c. map_of ss' c =
           (case map_of (entries r) (session_key c) of
              None \<Rightarrow> map_of ss c
            | Some (ttl, s') \<Rightarrow>
                if session_key c \<in> set (key # keys) \<and> now < expiresAt s' then Some s' else map_of ss c)"
      proof
        fix c
        show "map_of ss' c =
           (case map_of (entries r) (session_key c) of
              None \<Rightarrow> map_of ss c
            | Some (ttl, s') \<Rightarrow>
                if session_key c \<in> set (key # keys) \<and> now < expiresAt s' then Some s' else map_of ss c)"
        proof (cases "c = containerId s")
          case True
          with m [rule_format, of c] Some v key \<open>now < expiresAt s\<close> show ?thesis
            by (simp add: update_conv')
        next
          case False
          then have "session_key c \<noteq> key" using key by (simp add: session_key_inject)
          with m [rule_format, of c] False show ?thesis
            by (simp add: update_conv' split: option.splits)
        qed
      qed
      from step l h' e' m' show ?thesis by simp
    next
      case False
      define r1 where "r1 = r\<lparr>entries := AList.delete key (entries r)\<rparr>"
      have h1: "healthy r1" using h by (simp add: r1_def healthy_def)
      have wk1: "wellkeyed (entries r1)" using wk by (simp add: r1_def wellkeyed_delete)
      have e1: "\<And>k. map_of (entries r1) k = (if k = key then None else map_of (entries r) k)"
        by (simp add: r1_def delete_conv')
      have step: "loadKeys now (key # keys) ss r = loadKeys now keys ss r1"
        using h Some v False by (simp add: redis_get_healthy redis_del_healthy r1_def)
      from Cons.IH [OF h1 wk1, of ss] obtain ss' r' where
        l: "loadKeys now keys ss r1 = (ss', r')" and h': "healthy r'"
        and e: "\<forall>k. map_of (entries r') k =
           (if k \<in> set keys \<and> (\<exists>ttl s. map_of (entries r1) k = Some (ttl, s) \<and> expiresAt s \<le> now)
            then None else map_of (entries r1) k)"
        and m: "\<forall>c. map_of ss' c =
           (case map_of (entries r1) (session_key c) of
              None \<Rightarrow> map_of ss c
            | Some (ttl, s') \<Rightarrow>
                if session_key c \<in> set keys \<and> now < expiresAt s' then Some s' else map_of ss c)"
        by blast
      have e': "\<forall>k. map_of (entries r') k =
           (if k \<in> set (key # keys) \<and> (\<exists>ttl s. map_of (entries r) k = Some (ttl, s) \<and> expiresAt s \<le> now)
            then None else map_of (entries r) k)"
      proof
        fix k
        show "map_of (entries r') k =
           (if k \<in> set (key # keys) \<and> (\<exists>ttl s. map_of (entries r) k = Some (ttl, s) \<and> expiresAt s \<le> now)
            then None else map_of (entries r) k)"
          using e [rule_format, of k] e1 [of k] Some v False by (cases "k = key") auto
      qed
      have m': "\<forall>c. map_of ss' c =
           (case map_of (entries r) (session_key c) of
              None \<Rightarrow> map_of ss c
            | Some (ttl, s') \<Rightarrow>
                if session_key c \<in> set (key # keys) \<and> now < expiresAt s' then Some s' else map_of ss c)"
      proof
        fix c
        show "map_of ss' c =
           (case map_of (entries r) (session_key c) of
              None \<Rightarrow> map_of ss c
            | Some (ttl, s') \<Rightarrow>
                if session_key c \<in> set (key # keys) \<and> now < expiresAt s' then Some s' else map_of ss c)"
          using m [rule_format, of c] e1 [of "session_key c"] Some v False
          by (cases "session_key c = key") (auto split: option.splits)
      qed
      from step l h' e' m' show ?thesis by simp
    qed
  qed
qed

lemma loadKeys_only_live:
  "loadKeys now ks ss r = (ss', r') \<Longrightarrow> map_of ss' c = Some s \<Longrightarrow>
     map_of ss c = Some s \<or> now < expiresAt s"
proof (induction ks arbitrary: ss r)
  case Nil
  then show ?case by simp
next
  case (Cons key keys)
  obtain g r1 where g: "redis_get key r = (g, r1)" by (cases "redis_get key r")
  show ?case
  proof (cases g)
    case (Inl e)
    with Cons.prems g show ?thesis by simp
  next
    case (Inr v)
    show ?thesis
    proof (cases v)
      case None
      with Cons.prems g Inr have "loadKeys now keys ss r1 = (ss', r')" by simp
      from Cons.IH [OF this Cons.prems(2)] show ?thesis .
    next
      case (Some session)
      show ?thesis
      proof (cases "now < expiresAt session")
        case True
        with Cons.prems g Inr Some
        have "loadKeys now keys (AList.update (containerId session) session ss) r1 = (ss', r')" by simp
        from Cons.IH [OF this Cons.prems(2)] True show ?thesis
          by (auto simp: update_conv' split: if_splits)
      next
        case False
        obtain b r2 where d: "redis_del key r1 = (b, r2)" by (cases "redis_del key r1")
        show ?thesis
        proof (cases b)
          case True
          with Cons.prems g Inr Some False d have "loadKeys now keys ss r2 = (ss', r')" by simp
          from Cons.IH [OF this Cons.prems(2)] show ?thesis .
        next
          case b: False
          with Cons.prems g Inr Some False d show ?thesis by simp
        qed
      qed
    qed
  qed
qed

lemma load_timers:
  "timers (loadSessionsFromRedis now st) = timers st \<and>
   nextTimer (loadSessionsFromRedis now st) = nextTimer st"
  by (simp add: loadSessionsFromRedis_def split: option.splits prod.splits sum.splits)

lemma load_only_live:
  assumes "getSession (loadSessionsFromRedis now st) c = Some s"
  shows "getSession st c = Some s \<or> now < expiresAt s"
proof (cases "redis st")
  case None
  with assms show ?thesis by (simp add: loadSessionsFromRedis_def)
next
  case (Some r)
  obtain k r1 where k: "redis_keys r = (k, r1)" by (cases "redis_keys r")
  show ?thesis
  proof (cases k)
    case (Inl e)
    with assms Some k show ?thesis by (simp add: loadSessionsFromRedis_def getSession_def)
  next
    case (Inr keys)
    obtain ss' r2 where l: "loadKeys now keys (sessions st) r1 = (ss', r2)"
      by (cases "loadKeys now keys (sessions st) r1")
    with assms Some k Inr have "map_of ss' c = Some s"
      by (simp add: loadSessionsFromRedis_def getSession_def)
    from loadKeys_only_live [OF l this] show ?thesis by (simp add: getSession_def)
  qed
qed

lemma session_key_listed:
  "(session_key c \<in> set (filter (\<lambda>k. take 8 k = ''session:'') (map fst es))) =
     (map_of es (session_key c) \<noteq> None)"
  by (auto simp: session_key_def map_of_eq_None_iff)

lemma load_healthy:
  assumes r: "redis st = Some r" and h: "healthy r" and wk: "wellkeyed (entries r)"
  shows "\<exists>r'. redis (loadSessionsFromRedis now st) = Some r' \<and>
        (\<forall>c. case map_of (entries r) (session_key c) of
               None \<Rightarrow> getSession (loadSessionsFromRedis now st) c = getSession st c \<and>
                         map_of (entries r') (session_key c) = None
             | Some (ttl, s) \<Rightarrow>
                 if now < expiresAt s
                 then getSession (loadSessionsFromRedis now st) c = Some s \<and>
                      map_of (entries r') (session_key c) = Some (ttl, s)
                 else getSession (loadSessionsFromRedis now st) c = getSession st c \<and>
                      map_of (entries r') (session_key c) = None)"
proof -
  let ?keys = "filter (\<lambda>k. take 8 k = ''session:'') (map fst (entries r))"
  from loadKeys_healthy [OF h wk, of now ?keys "sessions st"] obtain ss' r' where
    l: "loadKeys now ?keys (sessions st) r = (ss', r')"
    and e: "\<forall>k. map_of (entries r') k =
         (if k \<in> set ?keys \<and> (\<exists>ttl s. map_of (entries r) k = Some (ttl, s) \<and> expiresAt s \<le> now)
          then None else map_of (entries r) k)"
    and m: "\<forall>c. map_of ss' c =
         (case map_of (entries r) (session_key c) of
            None \<Rightarrow> map_of (sessions st) c
          | Some (ttl, s) \<Rightarrow>
              if session_key c \<in> set ?keys \<and> now < expiresAt s then Some s else map_of (sessions st) c)"
    by blast
  have res: "loadSessionsFromRedis now st = st\<lparr>sessions := ss', redis := Some r'\<rparr>"
    using r h l by (simp add: loadSessionsFromRedis_def redis_keys_healthy)
  have gs: "\<And>c. getSession (loadSessionsFromRedis now st) c = map_of ss' c"
    using res by (simp add: getSession_def)
  have "\<forall>c. case map_of (entries r) (session_key c) of
               None \<Rightarrow> getSession (loadSessionsFromRedis now st) c = getSession st c \<and>
                         map_of (entries r') (session_key c) = None
             | Some (ttl, s) \<Rightarrow>
                 if now < expiresAt s
                 then getSession (loadSessionsFromRedis now st) c = Some s \<and>
                      map_of (entries r') (session_key c) = Some (ttl, s)
                 else getSession (loadSessionsFromRedis now st) c = getSession st c \<and>
                      map_of (entries r') (session_key c) = None"
  proof
    fix c
    show "case map_of (entries r) (session_key c) of
               None \<Rightarrow> getSession (loadSessionsFromRedis now st) c = getSession st c \<and>
                         map_of (entries r') (session_key c) = None
             | Some (ttl, s) \<Rightarrow>
                 if now < expiresAt s
                 then getSession (loadSessionsFromRedis now st) c = Some s \<and>
                      map_of (entries r') (session_key c) = Some (ttl, s)
                 else getSession (loadSessionsFromRedis now st) c = getSession st c \<and>
                      map_of (entries r') (session_key c) = None"
      using e [rule_format, of "session_key c"] m [rule_format, of c]
        session_key_listed [of c "entries r"] gs [of c]
      by (auto simp: getSession_def split: option.splits)
  qed
  moreover have "redis (loadSessionsFromRedis now st) = Some r'" using res by simp
  ultimately show ?thesis by blast
qed

subsection \<open>A port that never shows\<close>

lemma waitForHostPort_timeout:
  assumes "faults e = []" "map_of (containers e) cid = Some c" "set (cports c) \<subseteq> {0}"
  shows "fst (waitForHostPort cid e) = Inr 0"
  using waitLoop_healthy [OF assms(1,2), of "clock e" 5000] assms(3)
  by (auto simp: waitForHostPort_def)

text \<open>
  A run in which the runtime never reports a port: the wait gives up after 5000 ms, the
  session is recorded with port 0, and the proxy answers 404 for it.
\<close>

lemma createSession_without_port:
  "map_option hostPort (getSession (store (snd (createSession demo_cfg None None portless_world))) ''c1'') = Some 0 \<and>
   clock (env (snd (createSession demo_cfg None None portless_world))) = 7000 \<and>
   proxyToBrowser (Some ''c1'') (snd (createSession demo_cfg None None portless_world)) = Status404"
  by (simp add: portless_world_def empty_store_def demo_env_def demo_cfg_def createSession_def
        getActiveSessionsCount_def startContainer_def getActiveContainersCount_def listRunning_def
        issue_def provision_def ensureImageExists_def image_inspect_def parse_2g createContainer_def
        startContainerWithRetry_unfold container_start_def sleep_def set_status_def
        waitForHostPort_def waitLoop.simps container_inspect_def reported_port_def
        register_def store_createSession_def setTimeout_def timer_delay_def persistSession_def
        sessionDuration_def
        truthy_def Let_def getSession_def proxyToBrowser_def getSessionHostPort_def
        store_getSessionHostPort_def)

section \<open>Properties\<close>

subsection \<open>Remaining time\<close>

text \<open>
  C8. \<^verbatim>\<open>getRemainingTime\<close> of the manager is the store's reading at the current time; it is
  never negative, it is 0 for an id the store does not know, and it is 0 for a session whose
  \<open>expiresAt\<close> is not in the future.
\<close>

theorem getRemainingTime_zero_or_positive:
  "0 \<le> getRemainingTime w cid \<and>
   (getSession (store w) cid = None \<longrightarrow> getRemainingTime w cid = 0) \<and>
   (\<forall>s. getSession (store w) cid = Some s \<and> expiresAt s \<le> clock (env w)
      \<longrightarrow> getRemainingTime w cid = 0) \<and>
   getRemainingTime w cid = store_getRemainingTime (store w) (clock (env w)) cid"
  by (auto simp: getRemainingTime_def store_getRemainingTime_def getSession_def split: option.splits)

theorem getRemainingTime_zero_or_positive_witness:
  "getSession (store stale_world) ''c0'' = Some demo_session \<and>
   expiresAt demo_session \<le> clock (env stale_world) \<and>
   getRemainingTime stale_world ''c0'' = 0 \<and>
   getSession (store stale_world) ''zz'' = None \<and> getRemainingTime stale_world ''zz'' = 0"
proof -
  have a: "getSession (store stale_world) ''c0'' = Some demo_session"
    by (simp add: getSession_def stale_world_def empty_store_def)
  have b: "expiresAt demo_session \<le> clock (env stale_world)"
    by (simp add: demo_session_def stale_world_def demo_env_def)
  have c: "getSession (store stale_world) ''zz'' = None"
    by (simp add: getSession_def stale_world_def empty_store_def)
  from getRemainingTime_zero_or_positive [of stale_world "''c0''"] a b
  have d: "getRemainingTime stale_world ''c0'' = 0" by blast
  from getRemainingTime_zero_or_positive [of stale_world "''zz''"] c
  have e: "getRemainingTime stale_world ''zz'' = 0" by blast
  from a b c d e show ?thesis by blast
qed

subsection \<open>Endpoint lookup\<close>

text \<open>
  C10. \<^verbatim>\<open>waitForHostPort\<close> answers 0 when the runtime reports no port until the time is up.
  The lookup of a session's port answers \<open>None\<close> both for an id without session and for a
  session recorded with port 0, and \<^verbatim>\<open>proxyToBrowser\<close> answers 404 to both; only a session
  with a positive port is forwarded.
\<close>

theorem unresolved_endpoint_looks_absent:
  "(getSession (store w) cid = None \<longrightarrow>
      getSessionHostPort w cid = None \<and> proxyToBrowser (Some cid) w = Status404) \<and>
   (\<forall>s. getSession (store w) cid = Some s \<and> hostPort s = 0 \<longrightarrow>
      getSessionHostPort w cid = None \<and> proxyToBrowser (Some cid) w = Status404) \<and>
   (\<forall>s. getSession (store w) cid = Some s \<and> 0 < hostPort s \<longrightarrow>
      getSessionHostPort w cid = Some (hostPort s) \<and>
      proxyToBrowser (Some cid) w = Forward (hostPort s)) \<and>
   (\<forall>c. faults e = [] \<and> map_of (containers e) cid = Some c \<and> set (cports c) \<subseteq> {0} \<longrightarrow>
      fst (waitForHostPort cid e) = Inr 0)"
  using waitForHostPort_timeout [of e cid]
  by (simp add: getSessionHostPort_def store_getSessionHostPort_def getSession_def proxyToBrowser_def)

theorem unresolved_endpoint_looks_absent_witness:
  "getSession (store stale_world) ''zz'' = None \<and>
   getSession (store stale_world) ''c0'' = Some demo_session \<and> hostPort demo_session = 0 \<and>
   getSessionHostPort stale_world ''zz'' = getSessionHostPort stale_world ''c0'' \<and>
   proxyToBrowser (Some ''zz'') stale_world = Status404 \<and>
   proxyToBrowser (Some ''c0'') stale_world = Status404 \<and>
   getSession (store live_world) ''c1'' = Some live_session \<and> 0 < hostPort live_session \<and>
   proxyToBrowser (Some ''c1'') live_world = Forward 32768 \<and>
   faults unpublished_env = [] \<and>
   map_of (containers unpublished_env) ''c0'' = Some \<lparr>cstatus = Running, clabelled = True, cports = [0]\<rparr> \<and>
   fst (waitForHostPort ''c0'' unpublished_env) = Inr 0"
proof -
  have a: "getSession (store stale_world) ''zz'' = None"
    by (simp add: getSession_def stale_world_def empty_store_def)
  have b: "getSession (store stale_world) ''c0'' = Some demo_session"
    by (simp add: getSession_def stale_world_def empty_store_def)
  have c: "hostPort demo_session = 0"
    by (simp add: demo_session_def)
  have d: "getSession (store live_world) ''c1'' = Some live_session"
    by (simp add: getSession_def live_world_def)
  have e: "0 < hostPort live_session" "hostPort live_session = 32768"
    by (simp_all add: live_session_def)
  have u: "faults unpublished_env = []"
      "map_of (containers unpublished_env) ''c0'' = Some \<lparr>cstatus = Running, clabelled = True, cports = [0]\<rparr>"
      "set (cports \<lparr>cstatus = Running, clabelled = True, cports = [0]\<rparr>) \<subseteq> {0}"
    by (simp_all add: unpublished_env_def running_env_def)
  from unresolved_endpoint_looks_absent [of stale_world "''zz''"] a
  have f: "getSessionHostPort stale_world ''zz'' = None"
          "proxyToBrowser (Some ''zz'') stale_world = Status404" by blast+
  from unresolved_endpoint_looks_absent [of stale_world "''c0''" unpublished_env] b c u
  have g: "getSessionHostPort stale_world ''c0'' = None"
          "proxyToBrowser (Some ''c0'') stale_world = Status404"
          "fst (waitForHostPort ''c0'' unpublished_env) = Inr 0" by blast+
  from unresolved_endpoint_looks_absent [of live_world "''c1''"] d e(1)
  have h: "proxyToBrowser (Some ''c1'') live_world = Forward (hostPort live_session)" by blast
  from a b c d e f g h u(1,2) show ?thesis by simp
qed

subsection \<open>Capacity check of startContainer when the listing fails\<close>

text \<open>
  C9. When the listing of running containers throws, \<^verbatim>\<open>getActiveContainersCount\<close> answers 0
  (and the error is gone). \<^verbatim>\<open>startContainer\<close> then compares 0 with the ceiling, so with a
  positive ceiling it goes on to provision whatever the number of running containers is.
\<close>

theorem listing_failure_admits:
  "faults e = True # fs \<longrightarrow>
     getActiveContainersCount e = (0, e\<lparr>faults := fs, calls := calls e @ [CList]\<rparr>) \<and>
     (0 < maxSessions cfg \<longrightarrow>
        startContainer cfg img e = provision cfg img (e\<lparr>faults := fs, calls := calls e @ [CList]\<rparr>))"
  by (simp add: getActiveContainersCount_def listRunning_def issue_def startContainer_def)

theorem listing_failure_admits_witness:
  "faults (running_env\<lparr>faults := [True]\<rparr>) = True # [] \<and> 0 < maxSessions demo_cfg \<and>
   fst (startContainer demo_cfg ''browser'' running_env) = Inl MaxSessionsReached \<and>
   startContainer demo_cfg ''browser'' (running_env\<lparr>faults := [True]\<rparr>) =
     provision demo_cfg ''browser'' (running_env\<lparr>faults := [], calls := [CList]\<rparr>)"
proof -
  have a: "faults (running_env\<lparr>faults := [True]\<rparr>) = True # []" by simp
  have b: "0 < maxSessions demo_cfg" by (simp add: demo_cfg_def)
  have c: "fst (startContainer demo_cfg ''browser'' running_env) = Inl MaxSessionsReached"
    by (simp add: startContainer_def getActiveContainersCount_def listRunning_def issue_def
          running_env_def demo_cfg_def)
  have d: "(running_env\<lparr>faults := [True]\<rparr>)\<lparr>faults := [], calls := calls (running_env\<lparr>faults := [True]\<rparr>) @ [CList]\<rparr>
             = running_env\<lparr>faults := [], calls := [CList]\<rparr>"
    by (simp add: running_env_def)
  from listing_failure_admits [of "running_env\<lparr>faults := [True]\<rparr>" "[]" demo_cfg "''browser''"] a b d
  have "startContainer demo_cfg ''browser'' (running_env\<lparr>faults := [True]\<rparr>) =
          provision demo_cfg ''browser'' (running_env\<lparr>faults := [], calls := [CList]\<rparr>)"
    by simp
  with a b c show ?thesis by blast
qed

subsection \<open>Start is retried, create is not\<close>



subsection \<open>A failed createSession\<close>

text \<open>
  C2, as the code has it. A call of \<^verbatim>\<open>createSession\<close> that fails hands one error to its
  caller and leaves the store (sessions, mirror, timers) exactly as it was. It makes no stop
  and no remove call, so the runtime holds no fewer containers than before: a container that
  was created before the failing step stays.
\<close>

theorem createSession_failure_leaves_store:
  "createSession cfg d uid w = (Inl err, w') \<longrightarrow>
     store w' = store w \<and>
     ncalls is_teardown (env w') = ncalls is_teardown (env w) \<and>
     length (containers (env w)) \<le> length (containers (env w'))"
  using createSession_failure_effect [of cfg d uid w err w'] by blast

theorem createSession_failure_leaves_store_witness:
  "createSession demo_cfg None None failing_world =
     (Inl (RuntimeFailure (CStart ''c1'')), snd (createSession demo_cfg None None failing_world)) \<and>
   store (snd (createSession demo_cfg None None failing_world)) = store failing_world \<and>
   ncalls is_teardown (env (snd (createSession demo_cfg None None failing_world))) =
     ncalls is_teardown (env failing_world)"
proof -
  have "createSession demo_cfg None None failing_world =
     (Inl (RuntimeFailure (CStart ''c1'')), snd (createSession demo_cfg None None failing_world))"
    using failing_world_run by (metis prod.collapse)
  with createSession_failure_leaves_store [of demo_cfg None None failing_world
         "RuntimeFailure (CStart ''c1'')" "snd (createSession demo_cfg None None failing_world)"]
  show ?thesis by blast
qed

text \<open>
  C2 as it was stated fails: all three start calls fail after the create call has
  succeeded, the error reaches the caller, and the created container is still in the runtime
  with no stop or remove call made.
\<close>

theorem createSession_failure_keeps_container:
  "fst (createSession demo_cfg None None failing_world) = Inl (RuntimeFailure (CStart ''c1'')) \<and>
   map_of (containers (env (snd (createSession demo_cfg None None failing_world)))) ''c1''
     = Some \<lparr>cstatus = Created, clabelled = True, cports = [0, 32768]\<rparr> \<and>
   ncalls is_teardown (env (snd (createSession demo_cfg None None failing_world))) = 0"
  by (rule failing_world_run)

subsection \<open>The ceiling under interleaved calls\<close>

text \<open>
  C1 asks that no interleaving of \<^verbatim>\<open>createSession\<close> calls takes the number of
  sessions above \<open>maxSessions\<close>. Here the ceiling is 1 and two calls run in turns: both pass
  the session count check, both pass the container count check, and both provision and
  register. Both calls succeed, the store holds two sessions and two containers run.
  (Calls that run one after the other keep the ceiling: \<open>createSession_sequential_ceiling\<close>.)
\<close>

theorem createSession_race_exceeds_ceiling:
  "maxSessions demo_cfg = 1 \<and>
   fst (run demo_cfg [0, 1, 0, 1, 0, 1] [Entry, Entry] race_world) =
     [Finished (Inr \<lparr>resp_containerId = ''c1'', resp_hostPort = 32768, resp_expiresAt = 302100,
                     resp_remainingTimeMs = 300000\<rparr>),
      Finished (Inr \<lparr>resp_containerId = ''c2'', resp_hostPort = 32768, resp_expiresAt = 302200,
                     resp_remainingTimeMs = 300000\<rparr>)] \<and>
   getActiveSessionsCount (store (snd (run demo_cfg [0, 1, 0, 1, 0, 1] [Entry, Entry] race_world))) = 2 \<and>
   fst (getActiveContainersCount (env (snd (run demo_cfg [0, 1, 0, 1, 0, 1] [Entry, Entry] race_world)))) = 2"
  by (simp add: race_world_def empty_store_def demo_env_def demo_cfg_def
        getActiveSessionsCount_def getActiveContainersCount_def listRunning_def
        issue_def provision_def ensureImageExists_def image_inspect_def parse_2g createContainer_def
        startContainerWithRetry_unfold container_start_def sleep_def set_status_def
        waitForHostPort_def waitLoop.simps container_inspect_def reported_port_def
        register_def store_createSession_def setTimeout_def timer_delay_def persistSession_def
        sessionDuration_def
        truthy_def Let_def)

subsection \<open>Stopping twice\<close>

text \<open>
  C3, as the code has it. The stop-session request handler answers every valid request with
  200, \<open>success\<close> and \<open>stopped = true\<close>. Of two requests for the same id in a row, the second
  changes nothing in the store or the runtime and makes no runtime call; together they make at
  most one remove call for the container, exactly one when the session was active, the
  runtime answers every call and the container exists, and the container is gone afterwards.
  An active session is out of the store after the first request. The manager's
  \<^verbatim>\<open>stopSession\<close> returns \<^verbatim>\<open>true\<close> only when the runtime teardown succeeded and the store
  held the session.
\<close>

theorem stop_handler_idempotent:
  "(\<forall>r1 w1 r2 w2.
      stopSession_handler True cid w = (r1, w1) \<and> stopSession_handler True cid w1 = (r2, w2) \<longrightarrow>
         http_status r1 = 200 \<and> success r1 \<and> payload r1 = StoppedData cid True \<and>
         http_status r2 = 200 \<and> success r2 \<and> payload r2 = StoppedData cid True \<and>
         w2 = w1 \<and>
         ncalls (\<lambda>c. c = CRemove cid) (env w2) \<le> ncalls (\<lambda>c. c = CRemove cid) (env w) + 1 \<and>
         (isSessionActive w cid \<longrightarrow> getSession (store w1) cid = None) \<and>
         (isSessionActive w cid \<and> faults (env w) = [] \<and> cid \<in> fst ` set (containers (env w)) \<longrightarrow>
            ncalls (\<lambda>c. c = CRemove cid) (env w2) = ncalls (\<lambda>c. c = CRemove cid) (env w) + 1 \<and>
            cid \<notin> fst ` set (containers (env w2)))) \<and>
   fst (stopSession cid w) = (fst (stopContainer cid (env w)) \<and> getSession (store w) cid \<noteq> None)"
  using stop_twice [of cid w] stopSession_result [of cid w] by blast

theorem stop_handler_idempotent_witness:
  "isSessionActive live_world ''c1'' \<and> faults (env live_world) = [] \<and>
   ''c1'' \<in> fst ` set (containers (env live_world)) \<and>
   http_status (fst (stopSession_handler True ''c1'' live_world)) = 200 \<and>
   http_status (fst (stopSession_handler True ''c1''
       (snd (stopSession_handler True ''c1'' live_world)))) = 200 \<and>
   snd (stopSession_handler True ''c1'' (snd (stopSession_handler True ''c1'' live_world)))
     = snd (stopSession_handler True ''c1'' live_world) \<and>
   ncalls (\<lambda>c. c = CRemove ''c1'')
     (env (snd (stopSession_handler True ''c1'' (snd (stopSession_handler True ''c1'' live_world))))) = 1 \<and>
   getSession (store (snd (stopSession_handler True ''c1'' live_world))) ''c1'' = None"
proof -
  obtain r1 w1 where h1: "stopSession_handler True ''c1'' live_world = (r1, w1)"
    by (cases "stopSession_handler True ''c1'' live_world")
  obtain r2 w2 where h2: "stopSession_handler True ''c1'' w1 = (r2, w2)"
    by (cases "stopSession_handler True ''c1'' w1")
  have a: "isSessionActive live_world ''c1''" "faults (env live_world) = []"
      "''c1'' \<in> fst ` set (containers (env live_world))"
      "ncalls (\<lambda>c. c = CRemove ''c1'') (env live_world) = 0"
    by (simp_all add: isSessionActive_def store_isSessionActive_def live_world_def running_env_def
          live_session_def ncalls_def)
  from stop_handler_idempotent [of "''c1''" live_world] h1 h2 a
  have "http_status r1 = 200 \<and> http_status r2 = 200 \<and> w2 = w1 \<and>
        ncalls (\<lambda>c. c = CRemove ''c1'') (env w2) = 1 \<and> getSession (store w1) ''c1'' = None"
    by auto
  with a h1 h2 show ?thesis by auto
qed

text \<open>
  C3 as it was stated fails for the manager's \<^verbatim>\<open>stopSession\<close>: the first call on a
  running session returns \<^verbatim>\<open>true\<close>, the second call on the same id returns \<^verbatim>\<open>false\<close>.
\<close>

theorem stopSession_second_call_false:
  "fst (stopSession ''c1'' live_world) = True \<and>
   fst (stopSession ''c1'' (snd (stopSession ''c1'' live_world))) = False"
  by (simp add: stopSession_def stopContainer_def container_inspect_def container_stop_def
        container_remove_def issue_def set_status_def store_removeSession_def clearTimeout_def
        removeSessionFromRedis_def live_world_def running_env_def live_session_def Let_def)

subsection \<open>Extending a session\<close>

text \<open>
  C5, as the code has it. The manager's \<^verbatim>\<open>extendSession\<close> acts on every session the store
  holds, active or not: with a positive \<open>extraMs\<close> it returns \<^verbatim>\<open>true\<close>, \<open>expiresAt\<close> grows by
  \<open>extraMs\<close>, the session's previous timer is cleared and a new timer is armed for it; the new
  timer runs for the time left until the new expiry whenever that time lies between 1 and
  2147483647 milliseconds. The mirror and the runtime are not touched. For an id the store
  does not hold it returns \<^verbatim>\<open>false\<close> and changes nothing. The request handler is the one that
  looks at activity: for a session that is not active it answers 404 and changes nothing, for
  an active one it answers 200 and leaves what \<^verbatim>\<open>extendSession\<close> leaves.
\<close>

theorem extendSession_extends_registered:
  "(\<forall>s. getSession (store w) cid = Some s \<and> 0 < extraMs \<longrightarrow>
      (\<exists>w' s'. extendSession cid extraMs w = (True, w') \<and> getSession (store w') cid = Some s' \<and>
         expiresAt s' = expiresAt s + extraMs \<and> expiresAt s < expiresAt s' \<and>
         timer s' = Some (nextTimer (store w)) \<and>
         (\<exists>delay. map_of (timers (store w')) (nextTimer (store w)) = Some (cid, delay)) \<and>
         (1 \<le> expiresAt s' - clock (env w) \<and> expiresAt s' - clock (env w) \<le> 2147483647 \<longrightarrow>
            map_of (timers (store w')) (nextTimer (store w))
              = Some (cid, expiresAt s' - clock (env w))) \<and>
         (\<forall>h. timer s = Some h \<and> h \<noteq> nextTimer (store w) \<longrightarrow> map_of (timers (store w')) h = None) \<and>
         redis (store w') = redis (store w) \<and>
         env w' = env w)) \<and>
   (getSession (store w) cid = None \<longrightarrow> extendSession cid extraMs w = (False, w)) \<and>
   (\<not> isSessionActive w cid \<longrightarrow>
      extendSession_handler True cid extraMs w =
        (\<lparr>http_status = 404, success = False, message = ''Session not found or already expired'',
          payload = ExtendedData cid False\<rparr>, w)) \<and>
   (isSessionActive w cid \<longrightarrow>
      http_status (fst (extendSession_handler True cid extraMs w)) = 200 \<and>
      snd (extendSession_handler True cid extraMs w) = snd (extendSession cid extraMs w))"
proof (intro conjI allI impI)
  fix s assume "getSession (store w) cid = Some s \<and> 0 < extraMs"
  then have s: "getSession (store w) cid = Some s" and pos: "0 < extraMs" by simp_all
  from extendSession_present [OF s, of extraMs] obtain w' s' where
    r: "extendSession cid extraMs w = (True, w')" "getSession (store w') cid = Some s'"
       "expiresAt s' = expiresAt s + extraMs" "timer s' = Some (nextTimer (store w))"
       "map_of (timers (store w')) (nextTimer (store w))
             = Some (cid, timer_delay (expiresAt s' - clock (env w)))"
       "\<forall>h. timer s = Some h \<and> h \<noteq> nextTimer (store w) \<longrightarrow> map_of (timers (store w')) h = None"
       "redis (store w') = redis (store w)" "env w' = env w"
    by blast
  have inr: "1 \<le> expiresAt s' - clock (env w) \<and> expiresAt s' - clock (env w) \<le> 2147483647 \<longrightarrow>
            map_of (timers (store w')) (nextTimer (store w))
              = Some (cid, expiresAt s' - clock (env w))"
    using r(5) by (simp add: timer_delay_def)
  have lt: "expiresAt s < expiresAt s'" using r(3) pos by simp
  have ex: "\<exists>delay. map_of (timers (store w')) (nextTimer (store w)) = Some (cid, delay)"
    using r(5) by blast
  from r(1,2,3,4,6,7,8) inr lt ex
  show "\<exists>w' s'. extendSession cid extraMs w = (True, w') \<and> getSession (store w') cid = Some s' \<and>
         expiresAt s' = expiresAt s + extraMs \<and> expiresAt s < expiresAt s' \<and>
         timer s' = Some (nextTimer (store w)) \<and>
         (\<exists>delay. map_of (timers (store w')) (nextTimer (store w)) = Some (cid, delay)) \<and>
         (1 \<le> expiresAt s' - clock (env w) \<and> expiresAt s' - clock (env w) \<le> 2147483647 \<longrightarrow>
            map_of (timers (store w')) (nextTimer (store w))
              = Some (cid, expiresAt s' - clock (env w))) \<and>
         (\<forall>h. timer s = Some h \<and> h \<noteq> nextTimer (store w) \<longrightarrow> map_of (timers (store w')) h = None) \<and>
         redis (store w') = redis (store w) \<and>
         env w' = env w"
    by blast
next
  assume "getSession (store w) cid = None"
  then show "extendSession cid extraMs w = (False, w)" by (rule extendSession_missing)
next
  assume "\<not> isSessionActive w cid"
  then show "extendSession_handler True cid extraMs w =
        (\<lparr>http_status = 404, success = False, message = ''Session not found or already expired'',
          payload = ExtendedData cid False\<rparr>, w)"
    by (rule extendSession_handler_inactive)
next
  assume a: "isSessionActive w cid"
  from extendSession_handler_active [OF a, of extraMs]
  show "http_status (fst (extendSession_handler True cid extraMs w)) = 200"
    and "snd (extendSession_handler True cid extraMs w) = snd (extendSession cid extraMs w)"
    by simp_all
qed

theorem extendSession_extends_registered_witness:
  "getSession (store live_world) ''c1'' = Some live_session \<and> (0::int) < 60000 \<and>
   isSessionActive live_world ''c1'' \<and>
   (1::int) \<le> 65000 - clock (env live_world) \<and> 65000 - clock (env live_world) \<le> 2147483647 \<and>
   (\<exists>w' s'. extendSession ''c1'' 60000 live_world = (True, w') \<and>
      getSession (store w') ''c1'' = Some s' \<and> expiresAt s' = 65000 \<and>
      map_of (timers (store w')) 1 = Some (''c1'', 63000) \<and> map_of (timers (store w')) 0 = None) \<and>
   http_status (fst (extendSession_handler True ''c1'' 60000 live_world)) = 200 \<and>
   getSession (store live_world) ''zz'' = None \<and> \<not> isSessionActive live_world ''zz'' \<and>
   extendSession ''zz'' 60000 live_world = (False, live_world) \<and>
   snd (extendSession_handler True ''zz'' 60000 live_world) = live_world"
proof -
  have a: "getSession (store live_world) ''c1'' = Some live_session" "(0::int) < 60000"
      "isSessionActive live_world ''c1''"
      "getSession (store live_world) ''zz'' = None" "\<not> isSessionActive live_world ''zz''"
    by (simp_all add: getSession_def isSessionActive_def store_isSessionActive_def live_world_def
          live_session_def running_env_def)
  have b: "expiresAt live_session = 5000" "timer live_session = Some 0"
      "nextTimer (store live_world) = 1" "clock (env live_world) = 2000"
    by (simp_all add: live_world_def live_session_def running_env_def)
  note t1 = extendSession_extends_registered [of live_world "''c1''" 60000]
  note t2 = extendSession_extends_registered [of live_world "''zz''" 60000]
  from t1 a(1,2) obtain w' s' where r:
    "extendSession ''c1'' 60000 live_world = (True, w')" "getSession (store w') ''c1'' = Some s'"
    "expiresAt s' = expiresAt live_session + 60000"
    "1 \<le> expiresAt s' - clock (env live_world) \<and> expiresAt s' - clock (env live_world) \<le> 2147483647 \<longrightarrow>
       map_of (timers (store w')) (nextTimer (store live_world))
         = Some (''c1'', expiresAt s' - clock (env live_world))"
    "\<forall>h. timer live_session = Some h \<and> h \<noteq> nextTimer (store live_world) \<longrightarrow> map_of (timers (store w')) h = None"
    by blast
  from r(3) b have e65: "expiresAt s' = 65000" by simp
  from r(4) e65 b have t63: "map_of (timers (store w')) 1 = Some (''c1'', 63000)" by simp
  from r(5) b have t0: "map_of (timers (store w')) 0 = None" by simp
  from r(1,2) e65 t63 t0 have c: "\<exists>w' s'. extendSession ''c1'' 60000 live_world = (True, w') \<and>
      getSession (store w') ''c1'' = Some s' \<and> expiresAt s' = 65000 \<and>
      map_of (timers (store w')) 1 = Some (''c1'', 63000) \<and> map_of (timers (store w')) 0 = None"
    by blast
  from t1 a(3) have d: "http_status (fst (extendSession_handler True ''c1'' 60000 live_world)) = 200"
    by blast
  from t2 a(4) have e: "extendSession ''zz'' 60000 live_world = (False, live_world)" by blast
  from t2 a(5) have f: "snd (extendSession_handler True ''zz'' 60000 live_world) = live_world"
    by simp
  have g: "(1::int) \<le> 65000 - clock (env live_world) \<and> 65000 - clock (env live_world) \<le> 2147483647"
    using b by simp
  from a c d e f g show ?thesis by blast
qed

text \<open>
  C5 as it was stated fails for a session that is still in the store after its expiry:
  \<^verbatim>\<open>extendSession\<close> does not report it as not found but extends it and arms a timer.
\<close>

theorem extendSession_extends_inactive:
  "\<not> isSessionActive stale_world ''c0'' \<and>
   fst (extendSession ''c0'' 60000 stale_world) = True \<and>
   map_option expiresAt (getSession (store stale_world) ''c0'') = Some 1000 \<and>
   map_option expiresAt (getSession (store (snd (extendSession ''c0'' 60000 stale_world))) ''c0'')
     = Some 61000 \<and>
   timers (store (snd (extendSession ''c0'' 60000 stale_world))) = [(0, ''c0'', 59000)]"
  by (simp add: isSessionActive_def store_isSessionActive_def extendSession_def getSession_def
        updateSessionExpiry_def clearTimeout_def setTimeout_def timer_delay_def persistSession_def
        Let_def stale_world_def empty_store_def demo_session_def demo_env_def)

subsection \<open>Writes to the mirror\<close>

text \<open>
  C4 asks that the mirror write of every create, updateExpiry and remove is complete when
  the operation returns. In the code \<^verbatim>\<open>createSession\<close> and \<^verbatim>\<open>updateSessionExpiry\<close> leave
  the mirror exactly as it was, in every state: the session they hand to \<^verbatim>\<open>persistSession\<close>
  holds the timer just armed, its serialisation throws, and no command is sent. On a store
  with a connected, empty mirror, \<^verbatim>\<open>createSession\<close> returns with nothing in the mirror and
  nothing in flight, so nothing arrives later either.
\<close>

theorem mirror_write_never_sent:
  "redis (snd (store_createSession cid port d uid now st)) = redis st \<and>
   serialise (fst (store_createSession cid port d uid now st)) = None \<and>
   redis (snd (updateSessionExpiry cid new now st)) = redis st \<and>
   redis (snd (store_createSession ''c1'' 32768 300000 None 2000 mirrored_store))
     = Some \<lparr>entries = [], inflight = [], rfaults = []\<rparr> \<and>
   entries (redis_settle \<lparr>entries = [], inflight = [], rfaults = []\<rparr>) = []"
proof -
  obtain session st' where c: "store_createSession cid port d uid now st = (session, st')"
    by (cases "store_createSession cid port d uid now st")
  from store_createSession_effect [OF c] c
  have a: "redis (snd (store_createSession cid port d uid now st)) = redis st"
          "serialise (fst (store_createSession cid port d uid now st)) = None"
    by (simp_all add: serialise_def)
  have b: "redis (snd (updateSessionExpiry cid new now st)) = redis st"
  proof (cases "map_of (sessions st) cid")
    case None
    then show ?thesis by (simp add: updateSessionExpiry_missing)
  next
    case (Some s)
    from updateSessionExpiry_effect [OF Some, of new now] show ?thesis by auto
  qed
  obtain session0 st0 where c0:
    "store_createSession ''c1'' 32768 300000 None 2000 mirrored_store = (session0, st0)"
    by (cases "store_createSession ''c1'' 32768 300000 None 2000 mirrored_store")
  from store_createSession_effect [OF c0] c0
  have d: "redis (snd (store_createSession ''c1'' 32768 300000 None 2000 mirrored_store))
     = Some \<lparr>entries = [], inflight = [], rfaults = []\<rparr>"
    by (simp add: mirrored_store_def empty_store_def empty_redis_def)
  have e: "entries (redis_settle \<lparr>entries = [], inflight = [], rfaults = []\<rparr>) = []"
    by (simp add: redis_settle_def)
  from a b d e show ?thesis by blast
qed

subsection \<open>Restoring from the mirror\<close>

text \<open>
  C6, as the code has it. On a healthy, wellkeyed mirror \<^verbatim>\<open>loadSessionsFromRedis\<close> puts
  every entry whose \<open>expiresAt\<close> is in the future into the store and keeps it in the mirror,
  and deletes every other entry from the mirror without loading it. Whatever the mirror
  does, a session that the load has put into the store has its \<open>expiresAt\<close> in the future, and
  the load arms no timer: the timer table is as it was.
\<close>

theorem restore_loads_live_entries:
  "(redis st = Some r \<and> healthy r \<and> wellkeyed (entries r) \<longrightarrow>
      (\<exists>r'. redis (loadSessionsFromRedis now st) = Some r' \<and>
        (\<forall>c. case map_of (entries r) (session_key c) of
               None \<Rightarrow> getSession (loadSessionsFromRedis now st) c = getSession st c \<and>
                         map_of (entries r') (session_key c) = None
             | Some (ttl, s) \<Rightarrow>
                 if now < expiresAt s
                 then getSession (loadSessionsFromRedis now st) c = Some s \<and>
                      map_of (entries r') (session_key c) = Some (ttl, s)
                 else getSession (loadSessionsFromRedis now st) c = getSession st c \<and>
                      map_of (entries r') (session_key c) = None))) \<and>
   (\<forall>c s. getSession (loadSessionsFromRedis now st) c = Some s \<longrightarrow>
      getSession st c = Some s \<or> now < expiresAt s) \<and>
   timers (loadSessionsFromRedis now st) = timers st \<and>
   nextTimer (loadSessionsFromRedis now st) = nextTimer st"
  using load_healthy [of st r now] load_only_live [of now st] load_timers [of now st] by blast

theorem restore_loads_live_entries_witness:
  "redis restart_store = Some \<lparr>entries =
       [(''session:c1'', 3, parsed_session), (''session:c0'', 1, demo_session)],
     inflight = [], rfaults = []\<rparr> \<and>
   expiresAt (parsed_session) = 5000 \<and> expiresAt demo_session = 1000 \<and>
   (\<exists>r'. redis (loadSessionsFromRedis 2000 restart_store) = Some r' \<and>
      getSession (loadSessionsFromRedis 2000 restart_store) ''c1'' = Some (parsed_session) \<and>
      map_of (entries r') ''session:c1'' = Some (3, parsed_session) \<and>
      getSession (loadSessionsFromRedis 2000 restart_store) ''c0'' = None \<and>
      map_of (entries r') ''session:c0'' = None)"
proof -
  let ?r = "\<lparr>entries = [(''session:c1'', 3, parsed_session), (''session:c0'', 1, demo_session)],
     inflight = [], rfaults = []\<rparr>"
  have a: "redis restart_store = Some ?r" "healthy ?r" "wellkeyed (entries ?r)"
      "expiresAt (parsed_session) = 5000" "expiresAt demo_session = 1000"
      "getSession restart_store ''c0'' = None"
    by (simp_all add: restart_store_def empty_store_def healthy_def wellkeyed_def session_key_def
          parsed_session_def live_session_def demo_session_def getSession_def)
  from restore_loads_live_entries [of restart_store ?r 2000] a(1,2,3) obtain r' where
    r': "redis (loadSessionsFromRedis 2000 restart_store) = Some r'"
    and e: "\<And>c. case map_of (entries ?r) (session_key c) of
               None \<Rightarrow> getSession (loadSessionsFromRedis 2000 restart_store) c = getSession restart_store c \<and>
                         map_of (entries r') (session_key c) = None
             | Some (ttl, s) \<Rightarrow>
                 if 2000 < expiresAt s
                 then getSession (loadSessionsFromRedis 2000 restart_store) c = Some s \<and>
                      map_of (entries r') (session_key c) = Some (ttl, s)
                 else getSession (loadSessionsFromRedis 2000 restart_store) c = getSession restart_store c \<and>
                      map_of (entries r') (session_key c) = None"
    by blast
  from e [of "''c1''"] a(4)
  have c1: "getSession (loadSessionsFromRedis 2000 restart_store) ''c1'' = Some (parsed_session) \<and>
      map_of (entries r') ''session:c1'' = Some (3, parsed_session)"
    by (simp add: session_key_def)
  from e [of "''c0''"] a(5,6)
  have c0: "getSession (loadSessionsFromRedis 2000 restart_store) ''c0'' = None \<and>
      map_of (entries r') ''session:c0'' = None"
    by (simp add: session_key_def)
  from a r' c1 c0 show ?thesis by blast
qed

text \<open>
  C6 as it was stated fails in its timer part: after the load the live session is in
  the store, no timer stands behind it and the timer table is empty.
\<close>

theorem restore_arms_no_timer:
  "map_option containerId (getSession (loadSessionsFromRedis 2000 restart_store) ''c1'') = Some ''c1'' \<and>
   map_option timer (getSession (loadSessionsFromRedis 2000 restart_store) ''c1'') = Some None \<and>
   timers (loadSessionsFromRedis 2000 restart_store) = []"
  by (simp add: loadSessionsFromRedis_def restart_store_def empty_store_def redis_keys_def
        redis_settle_def redis_fault_def redis_get_def redis_del_def redis_process_def
        getSession_def parsed_session_def live_session_def demo_session_def)

end
